theory Spec2Isabelle
  imports Complex_Main "HOL-Library.Word" "HOL-Library.Char_ord" "HOL-Library.List_Lexorder"
begin

unbundle bit_operations_syntax

section \<open>Common data: bytes, exceptions, Python helpers\<close>

text \<open>
  A Python \<open>bytes\<close>/\<open>bytearray\<close> value is a list of 8-bit words. A raised exception is the
  \<open>Inl\<close> branch of a sum; the exception classes that the modelled functions raise are the
  constructors of \<open>py_exception\<close>, each carrying the message text.
\<close>

type_synonym byte = "8 word"
type_synonym bytes = "byte list"

datatype py_exception =
    ValueError string
  | IndexError string
  | KeyError string
  | QueryTemplateError string
  | TypeError string

text \<open>\<open>xs[a:b]\<close> for \<open>0 \<le> a\<close>, \<open>0 \<le> b\<close>: Python clamps both ends to the length.\<close>

definition slice :: "'a list \<Rightarrow> nat \<Rightarrow> nat \<Rightarrow> 'a list" where
  "slice xs a b = take (b - a) (drop a xs)"

text \<open>
  \<open>xs[i]\<close> for \<open>0 \<le> i\<close>, on a list and on a bytes value: raises IndexError outside the
  sequence.
\<close>

definition py_index :: "'a list \<Rightarrow> nat \<Rightarrow> py_exception + 'a" where
  "py_index xs i =
     (if i < length xs then Inr (xs ! i) else Inl (IndexError ''list index out of range''))"

definition bytes_index :: "bytes \<Rightarrow> nat \<Rightarrow> py_exception + byte" where
  "bytes_index xs i =
     (if i < length xs then Inr (xs ! i) else Inl (IndexError ''index out of range''))"

text \<open>\<open>str(n)\<close> for a non-negative integer, and the format \<open>{:02x}\<close> of a byte.\<close>

definition digit_char :: "nat \<Rightarrow> char" where
  "digit_char d = (''0123456789abcdef'') ! d"

function str_nat :: "nat \<Rightarrow> string" where
  "str_nat n = (if n < 10 then [digit_char n] else str_nat (n div 10) @ [digit_char (n mod 10)])"
  by pat_completeness auto
termination
  by (relation "measure id") auto

definition hex02 :: "byte \<Rightarrow> string" where
  "hex02 b = [digit_char (unat b div 16), digit_char (unat b mod 16)]"

section \<open>Mbox-counter protocol (mbox_counter/protocol.py)\<close>

definition PREAMBLE :: byte where "PREAMBLE = 0x27"
definition C_READ_REQ :: byte where "C_READ_REQ = 0x43"
definition C_READ_RESP :: byte where "C_READ_RESP = 0x08"
definition DATA_ADDR :: bytes where "DATA_ADDR = [0x01, 0x00]"

text \<open>
  \<open>crc8_e5\<close>: the running \<open>crc\<close> is a Python integer; the mask \<open>& 0xFF\<close> after each shift and
  after the final complement is written out.
\<close>

definition crc8_shift :: "int \<Rightarrow> int" where
  "crc8_shift crc = push_bit 1 (if crc AND 0x80 \<noteq> 0 then crc XOR 0xE5 else crc) AND 0xFF"

definition crc8_byte :: "int \<Rightarrow> byte \<Rightarrow> int" where
  "crc8_byte crc b = (crc8_shift ^^ 8) (crc XOR uint b)"

definition crc8_e5 :: "bytes \<Rightarrow> int" where
  "crc8_e5 data = NOT (foldl crc8_byte 0 data) AND 0xFF"

text \<open>\<open>int.to_bytes(n, "little")\<close> and \<open>int.from_bytes(bs, "little")\<close> (unsigned).\<close>

fun to_bytes_le :: "nat \<Rightarrow> int \<Rightarrow> bytes" where
  "to_bytes_le 0 v = []"
| "to_bytes_le (Suc n) v = word_of_int (v mod 256) # to_bytes_le n (v div 256)"

fun from_bytes_le :: "bytes \<Rightarrow> int" where
  "from_bytes_le [] = 0"
| "from_bytes_le (b # bs) = uint b + 256 * from_bytes_le bs"

definition build_read_request :: "int \<Rightarrow> py_exception + bytes" where
  "build_read_request serial_u16 =
     (if \<not> (0 \<le> serial_u16 \<and> serial_u16 \<le> 0xFFFF)
      then Inl (ValueError ''serial must be uint16 (0..65535)'')
      else
        let a = to_bytes_le 2 serial_u16;
            L = (5 :: byte);
            header = [L, C_READ_REQ] @ a;
            hdr_crc = to_bytes_le 1 (crc8_e5 header);
            data_crc = to_bytes_le 1 (crc8_e5 DATA_ADDR)
        in Inr ([PREAMBLE] @ header @ hdr_crc @ DATA_ADDR @ data_crc))"

record ParsedCountersResponse =
  serial :: int
  total_count :: int
  size_dir :: int
  flags :: int

definition parse_response_frame :: "bytes \<Rightarrow> py_exception + ParsedCountersResponse" where
  "parse_response_frame frame =
     (if frame = [] then Inl (ValueError ''bad preamble'')
      else if frame ! 0 \<noteq> PREAMBLE then Inl (ValueError ''bad preamble'')
      else if length frame < 6 then Inl (ValueError ''frame too short'')
      else
        let L = uint (frame ! 1);
            expected_len = 4 + L
        in
        if int (length frame) \<noteq> expected_len
        then Inl (ValueError (''bad frame length: got '' @ str_nat (length frame)
                     @ '', expected '' @ str_nat (nat expected_len)))
        else
          let C = frame ! 2 in
          if C \<noteq> C_READ_RESP
          then Inl (ValueError (''unexpected control code: 0x'' @ hex02 C))
          else
            let a_bytes = slice frame 3 5;
                serial_u16 = from_bytes_le a_bytes;
                hdr_crc = uint (frame ! 5);
                header = slice frame 1 5
            in
            if crc8_e5 header \<noteq> hdr_crc then Inl (ValueError ''header crc mismatch'')
            else
              let data_len = L - 3;
                  data_start = (6 :: int);
                  data_end = data_start + data_len;
                  data = slice frame (nat data_start) (nat data_end)
              in
              case bytes_index frame (nat data_end) of
                Inl e \<Rightarrow> Inl e
              | Inr data_crc \<Rightarrow>
                  if crc8_e5 data \<noteq> uint data_crc then Inl (ValueError ''data crc mismatch'')
                  else if length data \<noteq> 7
                  then Inl (ValueError (''unexpected data length: '' @ str_nat (length data)
                               @ '' (expected 7)''))
                  else
                    let total = from_bytes_le (slice data 0 4);
                        size_dir_v = from_bytes_le (slice data 4 6);
                        flags_v = uint (data ! 6)
                    in Inr \<lparr> serial = serial_u16, total_count = total,
                               size_dir = size_dir_v, flags = flags_v \<rparr>)"

section \<open>Reference vectors of the counter protocol\<close>

lemma crc8_e5_vectors:
  "crc8_e5 [0x05, 0x43, 0x78, 0x1a] = 0x1F"
  "crc8_e5 [0x01, 0x00] = 0xF3"
  "crc8_e5 [0x0a, 0x08, 0x78, 0x1a] = 0xCD"
  "crc8_e5 [0x28, 0x1c, 0x29, 0x00, 0x01, 0x00, 0x05] = 0x0D"
  by code_simp+

text \<open>
  Claim C7. \<open>build_read_request(0x1A78)\<close> returns the bytes \<open>27 05 43 78 1a 1f 01 00 f3\<close>,
  and \<open>parse_response_frame\<close> on \<open>27 0a 08 78 1a cd 28 1c 29 00 01 00 05 0d\<close> succeeds with
  serial 0x1A78, total count 2694184 and flags 0x05; the header and data CRCs of both frames
  are the values CRC8/E5 computes.
\<close>

theorem request_round_trip:
  "build_read_request 0x1A78 = Inr [0x27, 0x05, 0x43, 0x78, 0x1a, 0x1f, 0x01, 0x00, 0xf3]
   \<and> parse_response_frame
         [0x27, 0x0a, 0x08, 0x78, 0x1a, 0xcd, 0x28, 0x1c, 0x29, 0x00, 0x01, 0x00, 0x05, 0x0d]
       = Inr \<lparr> serial = 0x1A78, total_count = 2694184, size_dir = 1, flags = 0x05 \<rparr>
   \<and> crc8_e5 [0x05, 0x43, 0x78, 0x1a] = 0x1F \<and> crc8_e5 [0x01, 0x00] = 0xF3
   \<and> crc8_e5 [0x0a, 0x08, 0x78, 0x1a] = 0xCD
   \<and> crc8_e5 [0x28, 0x1c, 0x29, 0x00, 0x01, 0x00, 0x05] = 0x0D"
  by code_simp

section \<open>Mbox-counter framer (mbox_counter/framer.py)\<close>

text \<open>\<open>buf.index(x)\<close>: the first position of \<open>x\<close>, \<open>None\<close> where Python raises ValueError.\<close>

fun index_of :: "'a list \<Rightarrow> 'a \<Rightarrow> nat option" where
  "index_of [] x = None"
| "index_of (y # ys) x = (if y = x then Some 0 else map_option Suc (index_of ys x))"

lemma index_of_None: "index_of xs x = None \<longleftrightarrow> x \<notin> set xs"
  by (induction xs) auto

lemma index_of_Some_less: "index_of xs x = Some i \<Longrightarrow> i < length xs"
  by (induction xs arbitrary: i) (auto split: if_splits)

lemma index_of_Some_nth: "index_of xs x = Some i \<Longrightarrow> xs ! i = x"
  by (induction xs arbitrary: i) (auto split: if_splits)

lemma index_of_first: "x \<notin> set xs \<Longrightarrow> index_of (xs @ x # ys) x = Some (length xs)"
  by (induction xs) auto

text \<open>
  \<open>MboxCounterFramer.feed\<close>: the framer's state is its buffer \<open>_buf\<close>; \<open>counter_feed buf data\<close>
  returns the emitted frames and the buffer left behind. \<open>counter_loop\<close> is the \<open>while True\<close>
  loop, with the local list \<open>frames\<close> as accumulator.
\<close>

function counter_loop :: "bytes \<Rightarrow> bytes list \<Rightarrow> bytes list \<times> bytes" where
  "counter_loop buf frames =
     (case index_of buf PREAMBLE of
        None \<Rightarrow> (frames, [])
      | Some stx \<Rightarrow>
          let buf1 = (if stx > 0 then drop stx buf else buf) in
          if length buf1 < 2 then (frames, buf1)
          else
            let L = uint (buf1 ! 1);
                frame_len = 4 + L
            in
            if frame_len \<le> 0 then counter_loop (drop 1 buf1) frames
            else if int (length buf1) < frame_len then (frames, buf1)
            else counter_loop (drop (nat frame_len) buf1) (frames @ [take (nat frame_len) buf1]))"
  by pat_completeness auto
termination
  by (relation "measure (\<lambda>(buf, frames). length buf)") (auto split: if_splits)

definition counter_feed :: "bytes \<Rightarrow> bytes \<Rightarrow> bytes list \<times> bytes" where
  "counter_feed buf data = (if data = [] then ([], buf) else counter_loop (buf @ data) [])"

declare counter_loop.simps [simp del]

lemma counter_loop_frames:
  "counter_loop buf frames = (frames @ fst (counter_loop buf []), snd (counter_loop buf []))"
proof (induction "length buf" arbitrary: buf frames rule: less_induct)
  case less
  show ?case
  proof (cases "index_of buf PREAMBLE")
    case None
    then show ?thesis by (simp add: counter_loop.simps [of buf])
  next
    case (Some stx)
    define buf1 where "buf1 = (if stx > 0 then drop stx buf else buf)"
    define flen where "flen = 4 + uint (buf1 ! 1)"
    have "0 \<le> uint (buf1 ! 1)" by simp
    then have pos: "0 < flen" unfolding flen_def by linarith
    have unf: "counter_loop buf fr =
        (if length buf1 < 2 then (fr, buf1)
         else if int (length buf1) < flen then (fr, buf1)
         else counter_loop (drop (nat flen) buf1) (fr @ [take (nat flen) buf1]))" for fr
      using Some pos by (subst counter_loop.simps) (simp add: Let_def buf1_def flen_def)
    show ?thesis
    proof (cases "length buf1 < 2 \<or> int (length buf1) < flen")
      case True
      then show ?thesis by (auto simp: unf)
    next
      case False
      have "length buf1 \<le> length buf" by (simp add: buf1_def)
      moreover have "length (drop (nat flen) buf1) < length buf1" using False pos by auto
      ultimately have smaller: "length (drop (nat flen) buf1) < length buf" by linarith
      have a: "counter_loop buf frames =
          counter_loop (drop (nat flen) buf1) (frames @ [take (nat flen) buf1])"
        using False by (simp add: unf)
      have b: "counter_loop buf [] =
          counter_loop (drop (nat flen) buf1) ([] @ [take (nat flen) buf1])"
        using False by (simp add: unf)
      show ?thesis
        unfolding a b
        by (subst less [OF smaller], subst (2 3) less [OF smaller]) simp
    qed
  qed
qed

lemma counter_loop_sync:
  assumes "PREAMBLE \<notin> set noise1" and "F \<noteq> []" and "hd F = PREAMBLE"
    and "length F = 4 + unat (F ! 1)"
  shows "counter_loop (noise1 @ F @ noise2) frames = counter_loop noise2 (frames @ [F])"
proof -
  obtain f fs where F: "F = f # fs" using assms(2) by (cases F) auto
  have f: "f = PREAMBLE" using assms(3) F by simp
  have idx: "index_of (noise1 @ F @ noise2) PREAMBLE = Some (length noise1)"
    using index_of_first [OF assms(1), of "fs @ noise2"] F f by simp
  have len: "length F \<ge> 4" using assms(4) by simp
  have b1: "(if length noise1 > 0 then drop (length noise1) (noise1 @ F @ noise2) else noise1 @ F @ noise2) = F @ noise2"
    by auto
  have n1: "(F @ noise2) ! 1 = F ! 1" using len by (simp add: nth_append)
  have fl: "4 + uint (F ! 1) = int (length F)" using assms(4) by simp
  show ?thesis
    apply (subst counter_loop.simps)
    apply (simp only: idx option.case b1 Let_def n1 fl)
    using len assms(2) by simp
qed

lemma counter_loop_no_preamble:
  "PREAMBLE \<notin> set buf \<Longrightarrow> counter_loop buf frames = (frames, [])"
  using index_of_None [of buf PREAMBLE] by (subst counter_loop.simps) simp

lemma counter_feed_fresh: "fst (counter_feed [] data) = fst (counter_loop data [])"
  by (cases "data = []") (simp_all add: counter_feed_def counter_loop_no_preamble)

text \<open>
  Claim C4, as stated: any \<open>noise1 ++ F ++ noise2\<close> with a valid frame \<open>F\<close> makes a fresh framer
  return \<open>F\<close> exactly once. It fails when the noise holds the sync byte: after the noise
  \<open>27\<close> the framer reads the frame's own first byte as a length of 39 and waits for 43 bytes.
\<close>

theorem counter_frame_once_counterexample:
  "[0x27, 0x00, 0xAA, 0xBB] ! 0 = PREAMBLE
   \<and> length [0x27 :: byte, 0x00, 0xAA, 0xBB] = 4 + unat ([0x27 :: byte, 0x00, 0xAA, 0xBB] ! 1)
   \<and> fst (counter_feed [] ([0x27] @ [0x27, 0x00, 0xAA, 0xBB] @ [])) = []
   \<and> count_list (fst (counter_feed [] ([0x27] @ [0x27, 0x00, 0xAA, 0xBB] @ [])))
         [0x27, 0x00, 0xAA, 0xBB] \<noteq> 1"
  by code_simp

text \<open>
  Claim C4, amended: when \<open>noise1\<close> holds no byte 0x27, a fresh framer fed
  \<open>noise1 ++ F ++ noise2\<close> returns \<open>F\<close> first, followed by exactly the frames it cuts from
  \<open>noise2\<close> alone. So \<open>F\<close> is returned exactly once precisely when no frame cut from \<open>noise2\<close>
  equals \<open>F\<close>, and the output is \<open>[F]\<close> when \<open>noise2\<close> holds no 0x27 either.
\<close>

theorem counter_frame_once:
  assumes "PREAMBLE \<notin> set noise1" and "F ! 0 = PREAMBLE" and "length F = 4 + unat (F ! 1)"
  shows "fst (counter_feed [] (noise1 @ F @ noise2)) = F # fst (counter_feed [] noise2)
         \<and> (count_list (fst (counter_feed [] (noise1 @ F @ noise2))) F = 1
               \<longleftrightarrow> F \<notin> set (fst (counter_feed [] noise2)))
         \<and> (PREAMBLE \<notin> set noise2 \<longrightarrow> fst (counter_feed [] (noise1 @ F @ noise2)) = [F])"
proof -
  have ne: "F \<noteq> []" using assms(3) by auto
  then have hd: "hd F = PREAMBLE" using assms(2) by (simp add: hd_conv_nth)
  have "fst (counter_feed [] (noise1 @ F @ noise2)) = fst (counter_loop noise2 ([] @ [F]))"
    unfolding counter_feed_fresh using counter_loop_sync [OF assms(1) ne hd assms(3)] by simp
  also have "\<dots> = F # fst (counter_loop noise2 [])"
    by (subst counter_loop_frames) simp
  finally have main: "fst (counter_feed [] (noise1 @ F @ noise2)) = F # fst (counter_feed [] noise2)"
    by (simp add: counter_feed_fresh)
  have once: "count_list (fst (counter_feed [] (noise1 @ F @ noise2))) F = 1
           \<longleftrightarrow> F \<notin> set (fst (counter_feed [] noise2))"
    unfolding main by (simp add: count_list_0_iff)
  have clean: "fst (counter_feed [] (noise1 @ F @ noise2)) = [F]" if "PREAMBLE \<notin> set noise2"
    unfolding main using that by (simp add: counter_feed_fresh counter_loop_no_preamble)
  show ?thesis using main once clean by blast
qed

theorem counter_frame_once_witness:
  "PREAMBLE \<notin> set [0x01, 0x02] \<and> [0x27, 0x05, 0x43, 0x78, 0x1a, 0x1f, 0x01, 0x00, 0xf3] ! 0 = PREAMBLE
   \<and> length [0x27 :: byte, 0x05, 0x43, 0x78, 0x1a, 0x1f, 0x01, 0x00, 0xf3]
       = 4 + unat ([0x27 :: byte, 0x05, 0x43, 0x78, 0x1a, 0x1f, 0x01, 0x00, 0xf3] ! 1)
   \<and> PREAMBLE \<notin> set [0x03]
   \<and> fst (counter_feed [] ([0x01, 0x02] @ [0x27, 0x05, 0x43, 0x78, 0x1a, 0x1f, 0x01, 0x00, 0xf3] @ [0x03]))
       = [[0x27, 0x05, 0x43, 0x78, 0x1a, 0x1f, 0x01, 0x00, 0xf3]]
   \<and> count_list
         (fst (counter_feed [] ([0x01, 0x02] @ [0x27, 0x05, 0x43, 0x78, 0x1a, 0x1f, 0x01, 0x00, 0xf3] @ [0x03])))
         [0x27, 0x05, 0x43, 0x78, 0x1a, 0x1f, 0x01, 0x00, 0xf3] = 1"
proof -
  let ?F = "[0x27 :: byte, 0x05, 0x43, 0x78, 0x1a, 0x1f, 0x01, 0x00, 0xf3]"
  have h1: "PREAMBLE \<notin> set [0x01, 0x02]" by (simp add: PREAMBLE_def)
  have h2: "?F ! 0 = PREAMBLE" by (simp add: PREAMBLE_def)
  have h3: "length ?F = 4 + unat (?F ! 1)" by simp
  have h4: "PREAMBLE \<notin> set [0x03]" by (simp add: PREAMBLE_def)
  have r: "fst (counter_feed [] ([0x01, 0x02] @ ?F @ [0x03])) = [?F]"
    using counter_frame_once [OF h1 h2 h3, of "[0x03]"] h4 by blast
  show ?thesis using h1 h2 h3 h4 r by simp
qed

text \<open>\<open>sub in s\<close> and \<open>s.find(sub)\<close> on sequences: the first position where \<open>sub\<close> occurs.\<close>

fun find_sub :: "'a list \<Rightarrow> 'a list \<Rightarrow> nat option" where
  "find_sub sub [] = (if sub = [] then Some 0 else None)"
| "find_sub sub (x # xs) =
     (if take (length sub) (x # xs) = sub then Some 0 else map_option Suc (find_sub sub xs))"

definition py_in :: "'a list \<Rightarrow> 'a list \<Rightarrow> bool" where
  "py_in sub s = (find_sub sub s \<noteq> None)"

section \<open>Modbus register decoder (modbus_tcp/worker.py, modbus_tcp/config.py)\<close>

datatype ModbusTcpValueEncoding =
    U16 | S16 | U16_SCALED | S16_SCALED
  | U32_ABCD | U32_CDAB | S32_ABCD | S32_CDAB
  | U32_SCALED_ABCD | U32_SCALED_CDAB | S32_SCALED_ABCD | S32_SCALED_CDAB
  | F32_ABCD | F32_CDAB
  | F32_SCALED_ABCD | F32_SCALED_CDAB

text \<open>The enum's string values, read by the test \<open>"scaled" in enc.value\<close>.\<close>

fun enc_value :: "ModbusTcpValueEncoding \<Rightarrow> string" where
  "enc_value U16 = ''u16''"
| "enc_value S16 = ''s16''"
| "enc_value U16_SCALED = ''u16_scaled''"
| "enc_value S16_SCALED = ''s16_scaled''"
| "enc_value U32_ABCD = ''u32_abcd''"
| "enc_value U32_CDAB = ''u32_cdab''"
| "enc_value S32_ABCD = ''s32_abcd''"
| "enc_value S32_CDAB = ''s32_cdab''"
| "enc_value U32_SCALED_ABCD = ''u32_scaled_abcd''"
| "enc_value U32_SCALED_CDAB = ''u32_scaled_cdab''"
| "enc_value S32_SCALED_ABCD = ''s32_scaled_abcd''"
| "enc_value S32_SCALED_CDAB = ''s32_scaled_cdab''"
| "enc_value F32_ABCD = ''f32_abcd''"
| "enc_value F32_CDAB = ''f32_cdab''"
| "enc_value F32_SCALED_ABCD = ''f32_scaled_abcd''"
| "enc_value F32_SCALED_CDAB = ''f32_scaled_cdab''"

text \<open>
  A decoded value is a Python \<open>int\<close> or a Python \<open>float\<close>. Floats are kept abstract: the type
  \<open>'f\<close> with the four operations the decoder applies to them, so that nothing is assumed
  about rounding, infinities or NaN.
\<close>

datatype 'f number = NInt int | NFloat 'f

record 'f float_ops =
  f_of_int :: "int \<Rightarrow> 'f"
  f_mul :: "'f \<Rightarrow> 'f \<Rightarrow> 'f"
  f_add :: "'f \<Rightarrow> 'f \<Rightarrow> 'f"
  f_unpack_be :: "int \<Rightarrow> 'f"

record 'f ModbusTcpVariableConfig =
  var_name :: string
  var_address :: int
  var_encoding :: ModbusTcpValueEncoding
  var_k :: 'f
  var_b :: 'f
  var_default :: "'f number option"

text \<open>\<open>apply_scale\<close>: \<open>var.k * x + var.b\<close>, where an integer \<open>x\<close> is converted to float first.\<close>

definition apply_scale :: "'f float_ops \<Rightarrow> 'f ModbusTcpVariableConfig \<Rightarrow> 'f number \<Rightarrow> 'f number" where
  "apply_scale fl var x =
     NFloat (f_add fl (f_mul fl (var_k var) (case x of NInt i \<Rightarrow> f_of_int fl i | NFloat f \<Rightarrow> f)) (var_b var))"

definition make_u32_abcd :: "int \<Rightarrow> int \<Rightarrow> int" where
  "make_u32_abcd h l = (push_bit 16 h OR l) AND 0xFFFFFFFF"

definition decode_registers ::
  "'f float_ops \<Rightarrow> int list \<Rightarrow> 'f ModbusTcpVariableConfig \<Rightarrow> py_exception + 'f number" where
  "decode_registers fl registers var =
     (let enc = var_encoding var;
          scaled = py_in ''scaled'' (enc_value enc)
      in
      if enc \<in> {U16, U16_SCALED} then
        (case py_index registers 0 of
           Inl e \<Rightarrow> Inl e
         | Inr r0 \<Rightarrow>
             let raw = r0 AND 0xFFFF;
                 value = NInt raw
             in Inr (if scaled then apply_scale fl var value else value))
      else if enc \<in> {S16, S16_SCALED} then
        (case py_index registers 0 of
           Inl e \<Rightarrow> Inl e
         | Inr r0 \<Rightarrow>
             let raw = r0 AND 0xFFFF;
                 raw = (if raw AND 0x8000 \<noteq> 0 then raw - 0x10000 else raw);
                 value = NInt raw
             in Inr (if scaled then apply_scale fl var value else value))
      else
        (case py_index registers 0 of
           Inl e \<Rightarrow> Inl e
         | Inr r0 \<Rightarrow>
            (case py_index registers 1 of
               Inl e \<Rightarrow> Inl e
             | Inr r1 \<Rightarrow>
                 let hi = r0 AND 0xFFFF;
                     lo = r1 AND 0xFFFF;
                     u32 = (if enc \<in> {U32_ABCD, U32_SCALED_ABCD, S32_ABCD, S32_SCALED_ABCD,
                                        F32_ABCD, F32_SCALED_ABCD}
                            then make_u32_abcd hi lo else make_u32_abcd lo hi)
                 in
                 if enc \<in> {U32_ABCD, U32_SCALED_ABCD, U32_CDAB, U32_SCALED_CDAB} then
                   (let value = NInt u32
                    in Inr (if scaled then apply_scale fl var value else value))
                 else if enc \<in> {S32_ABCD, S32_SCALED_ABCD, S32_CDAB, S32_SCALED_CDAB} then
                   (let u32_signed = (if u32 AND 0x80000000 \<noteq> 0 then u32 - 0x100000000 else u32);
                        value = NInt u32_signed
                    in Inr (if scaled then apply_scale fl var value else value))
                 else
                   (let f = f_unpack_be fl u32;
                        value = NFloat f
                    in Inr (if scaled then apply_scale fl var value else value)))))"

lemma scaled_values:
  "py_in ''scaled'' (enc_value e) \<longleftrightarrow>
     e \<in> {U16_SCALED, S16_SCALED, U32_SCALED_ABCD, U32_SCALED_CDAB, S32_SCALED_ABCD,
           S32_SCALED_CDAB, F32_SCALED_ABCD, F32_SCALED_CDAB}"
  by (cases e) (simp_all add: py_in_def)

lemma decode_registers_examples:
  "decode_registers fl [0x1234, 0x5678] (var\<lparr>var_encoding := U32_ABCD\<rparr>) = Inr (NInt 0x12345678)"
  "decode_registers fl [0x1234, 0x5678] (var\<lparr>var_encoding := U32_CDAB\<rparr>) = Inr (NInt 0x56781234)"
  "decode_registers fl [0xFFFF, 0xFFFE] (var\<lparr>var_encoding := S32_ABCD\<rparr>) = Inr (NInt (- 2))"
  "decode_registers fl [0x8000] (var\<lparr>var_encoding := S16\<rparr>) = Inr (NInt (- 32768))"
  "decode_registers fl [0x0001] (var\<lparr>var_encoding := U32_ABCD\<rparr>)
     = Inl (IndexError ''list index out of range'')"
  by (simp_all add: decode_registers_def scaled_values py_index_def make_u32_abcd_def Let_def)

text \<open>
  Claim C9. For every pair of registers and each of the six 32-bit CDAB encodings (u32, s32,
  f32, scaled or not), decoding \<open>[r0, r1]\<close> as CDAB gives the same result as decoding
  \<open>[r1, r0]\<close> with the corresponding ABCD encoding.
\<close>

theorem cdab_is_swapped_abcd:
  "decode_registers fl [r0, r1] (var\<lparr>var_encoding := U32_CDAB\<rparr>)
     = decode_registers fl [r1, r0] (var\<lparr>var_encoding := U32_ABCD\<rparr>)
   \<and> decode_registers fl [r0, r1] (var\<lparr>var_encoding := S32_CDAB\<rparr>)
     = decode_registers fl [r1, r0] (var\<lparr>var_encoding := S32_ABCD\<rparr>)
   \<and> decode_registers fl [r0, r1] (var\<lparr>var_encoding := F32_CDAB\<rparr>)
     = decode_registers fl [r1, r0] (var\<lparr>var_encoding := F32_ABCD\<rparr>)
   \<and> decode_registers fl [r0, r1] (var\<lparr>var_encoding := U32_SCALED_CDAB\<rparr>)
     = decode_registers fl [r1, r0] (var\<lparr>var_encoding := U32_SCALED_ABCD\<rparr>)
   \<and> decode_registers fl [r0, r1] (var\<lparr>var_encoding := S32_SCALED_CDAB\<rparr>)
     = decode_registers fl [r1, r0] (var\<lparr>var_encoding := S32_SCALED_ABCD\<rparr>)
   \<and> decode_registers fl [r0, r1] (var\<lparr>var_encoding := F32_SCALED_CDAB\<rparr>)
     = decode_registers fl [r1, r0] (var\<lparr>var_encoding := F32_SCALED_ABCD\<rparr>)"
  by (simp add: decode_registers_def scaled_values py_index_def apply_scale_def Let_def)


section \<open>Query template compiler (core/query_template.py)\<close>

text \<open>
  Python strings are modelled as lists of 8-bit characters (code points below 256).
  \<open>str.strip()\<close> removes the characters Python counts as whitespace in that range:
  code points 9 to 13, 28 to 32, 0x85 and 0xA0.
\<close>

definition is_space :: "char \<Rightarrow> bool" where
  "is_space c = (let n = (of_char c :: nat)
                 in (9 \<le> n \<and> n \<le> 13) \<or> (28 \<le> n \<and> n \<le> 32) \<or> n = 0x85 \<or> n = 0xA0)"

definition py_strip :: "string \<Rightarrow> string" where
  "py_strip s = rev (dropWhile is_space (rev (dropWhile is_space s)))"

text \<open>\<open>sep.join(xs)\<close>.\<close>

fun py_join :: "string \<Rightarrow> string list \<Rightarrow> string" where
  "py_join sep [] = []"
| "py_join sep [x] = x"
| "py_join sep (x # y # ys) = x @ sep @ py_join sep (y # ys)"

record CompiledQueryTemplate =
  sql :: string
  param_names :: "string set"

text \<open>
  \<open>compile_query_template\<close>: the \<open>while i < n\<close> loop, stated on the part of the template from
  position \<open>i\<close> on; \<open>result_parts\<close> and \<open>param_names\<close> are the loop's accumulators. The inner
  \<open>while\<close> that looks for the closing brace is \<open>takeWhile\<close>/\<open>dropWhile\<close>. Python's
  \<open>str.isidentifier\<close> is the parameter \<open>isidentifier\<close>.
\<close>

function compile_loop ::
  "(string \<Rightarrow> bool) \<Rightarrow> string \<Rightarrow> string list \<Rightarrow> string set
     \<Rightarrow> py_exception + CompiledQueryTemplate" where
  "compile_loop isidentifier rest result_parts names =
     (case rest of
        [] \<Rightarrow> Inr \<lparr> sql = concat result_parts, param_names = names \<rparr>
      | ch # remaining \<Rightarrow>
          if ch = CHR ''{'' then
            (if take 1 remaining = ''{''
             then compile_loop isidentifier (drop 1 remaining) (result_parts @ [''{'']) names
             else
               let inner = takeWhile (\<lambda>c. c \<noteq> CHR ''}'') remaining;
                   closing = dropWhile (\<lambda>c. c \<noteq> CHR ''}'') remaining
               in
               if closing = []
               then Inl (QueryTemplateError (''Unmatched '' @ [CHR 0x27] @ ''{'' @ [CHR 0x27]
                           @ '' in query template''))
               else
                 let name = py_strip inner in
                 if name = []
                 then Inl (QueryTemplateError (''Empty placeholder '' @ [CHR 0x27] @ ''{}''
                             @ [CHR 0x27] @ '' in query template''))
                 else if \<not> isidentifier name
                 then Inl (QueryTemplateError (''Invalid placeholder name '' @ [CHR 0x27] @ name
                             @ [CHR 0x27] @ '' in query template''))
                 else compile_loop isidentifier (drop 1 closing)
                        (result_parts @ ['':'' @ name]) (insert name names))
          else if ch = CHR ''}'' then
            (if take 1 remaining = ''}''
             then compile_loop isidentifier (drop 1 remaining) (result_parts @ [''}'']) names
             else Inl (QueryTemplateError (''Single '' @ [CHR 0x27] @ ''}'' @ [CHR 0x27]
                         @ '' in query template'')))
          else compile_loop isidentifier remaining (result_parts @ [[ch]]) names)"
  by pat_completeness auto
termination
proof (relation "measure (\<lambda>(isid, rest, parts, names). length rest)", goal_cases)
  case 1
  show ?case by simp
next
  case (2 isidentifier rest result_parts names ch remaining)
  then show ?case by simp
next
  case (3 isidentifier rest result_parts names ch remaining inner closing name)
  have "length (dropWhile (\<lambda>c. c \<noteq> CHR ''}'') remaining) \<le> length remaining"
    by (rule length_dropWhile_le)
  with 3 show ?case by simp
next
  case (4 isidentifier rest result_parts names ch remaining)
  then show ?case by simp
next
  case (5 isidentifier rest result_parts names ch remaining)
  then show ?case by simp
qed

declare compile_loop.simps [simp del]

definition compile_query_template ::
  "(string \<Rightarrow> bool) \<Rightarrow> string \<Rightarrow> py_exception + CompiledQueryTemplate" where
  "compile_query_template isidentifier template = compile_loop isidentifier template [] {}"

text \<open>
  \<open>build_query\<close>: the loop over the set \<open>compiled.param_names\<close> collects the names absent from
  \<open>variables\<close> and copies the others; the order in which Python visits the set does not
  show in the result, since \<open>missing\<close> is sorted before it is printed and \<open>params\<close> is a
  dictionary.
\<close>

definition build_query ::
  "(string \<Rightarrow> bool) \<Rightarrow> string \<Rightarrow> (string \<rightharpoonup> 'v)
     \<Rightarrow> py_exception + (string \<times> (string \<rightharpoonup> 'v))" where
  "build_query isidentifier template variables =
     (case compile_query_template isidentifier template of
        Inl e \<Rightarrow> Inl e
      | Inr compiled \<Rightarrow>
          let missing = sorted_list_of_set (Set.filter (\<lambda>name. variables name = None)
                                              (param_names compiled));
              params = variables |` Set.filter (\<lambda>name. variables name \<noteq> None)
                                      (param_names compiled)
          in
          if missing \<noteq> []
          then Inl (KeyError (''Missing variables for query template: '' @ py_join '', '' missing))
          else Inr (sql compiled, params))"

text \<open>An ASCII instance of the identifier rule, for evaluating the compiler on examples.\<close>

definition ascii_isidentifier :: "string \<Rightarrow> bool" where
  "ascii_isidentifier s =
     (case s of
        [] \<Rightarrow> False
      | c # cs \<Rightarrow>
          (let letter = (\<lambda>x. (CHR ''a'' \<le> x \<and> x \<le> CHR ''z'') \<or> (CHR ''A'' \<le> x \<and> x \<le> CHR ''Z'')
                                \<or> x = CHR ''_'');
               digit = (\<lambda>x. CHR ''0'' \<le> x \<and> x \<le> CHR ''9'')
           in letter c \<and> list_all (\<lambda>x. letter x \<or> digit x) cs))"

lemma compile_loop_finite:
  "compile_loop isid rest parts names = Inr c \<Longrightarrow> finite names \<Longrightarrow> finite (param_names c)"
proof (induction isid rest parts names rule: compile_loop.induct)
  case (1 isid rest parts names)
  show ?case
  proof (cases rest)
    case Nil
    with "1.prems" show ?thesis by (simp add: compile_loop.simps [of isid "[]"]) auto
  next
    case (Cons ch remaining)
    show ?thesis
      using "1.prems" "1.IH" Cons
      by (subst (asm) compile_loop.simps) (auto simp: Let_def split: if_splits)
  qed
qed

lemma compile_finite:
  "compile_query_template isid template = Inr c \<Longrightarrow> finite (param_names c)"
  unfolding compile_query_template_def by (erule compile_loop_finite) simp

definition missing_names :: "CompiledQueryTemplate \<Rightarrow> (string \<rightharpoonup> 'v) \<Rightarrow> string set" where
  "missing_names c vs = Set.filter (\<lambda>name. vs name = None) (param_names c)"

text \<open>
  Claim C8. For a template that compiles, \<open>build_query\<close> raises exactly when a placeholder
  name is absent from the variables; the message then lists all the absent names, sorted;
  otherwise it returns the compiled SQL with a params map whose keys are exactly the
  placeholder names. Variables the template does not mention do not change the result.
\<close>

theorem build_query_missing_or_params:
  assumes "compile_query_template isid template = Inr c"
  shows "(if missing_names c vs \<noteq> {}
          then build_query isid template vs
                 = Inl (KeyError (''Missing variables for query template: ''
                          @ py_join '', '' (sorted_list_of_set (missing_names c vs))))
          else build_query isid template vs = Inr (sql c, vs |` param_names c)
               \<and> dom (vs |` param_names c) = param_names c)
         \<and> sorted (sorted_list_of_set (missing_names c vs))
         \<and> distinct (sorted_list_of_set (missing_names c vs))
         \<and> set (sorted_list_of_set (missing_names c vs)) = param_names c - dom vs
         \<and> build_query isid template (vs |` param_names c) = build_query isid template vs
         \<and> isl (build_query isid template vs) = (missing_names c vs \<noteq> {})"
proof -
  have fin: "finite (param_names c)" using assms by (rule compile_finite)
  then have finm: "finite (missing_names c vs)" by (simp add: missing_names_def)
  have m: "missing_names c vs = param_names c - dom vs"
    by (auto simp: missing_names_def dom_def)
  have empty_iff: "sorted_list_of_set (missing_names c vs) = [] \<longleftrightarrow> missing_names c vs = {}"
    using finm by (simp add: sorted_list_of_set_eq_Nil_iff)
  have present: "Set.filter (\<lambda>name. vs name \<noteq> None) (param_names c) = param_names c"
    if "missing_names c vs = {}"
    using that by (auto simp: missing_names_def)
  have dom_eq: "dom (vs |` param_names c) = param_names c" if "missing_names c vs = {}"
    using that by (auto simp: missing_names_def dom_def restrict_map_def)
  have restr: "Set.filter (\<lambda>name. (vs |` param_names c) name = None) (param_names c)
                 = Set.filter (\<lambda>name. vs name = None) (param_names c)"
              "Set.filter (\<lambda>name. (vs |` param_names c) name \<noteq> None) (param_names c)
                 = Set.filter (\<lambda>name. vs name \<noteq> None) (param_names c)"
    by (auto simp: restrict_map_def)
  have restr2: "(vs |` param_names c) |` Set.filter (\<lambda>name. vs name \<noteq> None) (param_names c)
                 = vs |` Set.filter (\<lambda>name. vs name \<noteq> None) (param_names c)"
    by (rule ext) (auto simp: restrict_map_def)
  have ignore: "build_query isid template (vs |` param_names c) = build_query isid template vs"
    by (simp only: build_query_def assms sum.case Let_def restr restr2)
  have bq: "build_query isid template vs =
      (if sorted_list_of_set (missing_names c vs) \<noteq> []
       then Inl (KeyError (''Missing variables for query template: ''
                   @ py_join '', '' (sorted_list_of_set (missing_names c vs))))
       else Inr (sql c, vs |` Set.filter (\<lambda>name. vs name \<noteq> None) (param_names c)))"
    by (simp only: build_query_def assms sum.case Let_def missing_names_def)
  have main: "(if missing_names c vs \<noteq> {}
          then build_query isid template vs
                 = Inl (KeyError (''Missing variables for query template: ''
                          @ py_join '', '' (sorted_list_of_set (missing_names c vs))))
          else build_query isid template vs = Inr (sql c, vs |` param_names c)
               \<and> dom (vs |` param_names c) = param_names c)"
  proof (cases "missing_names c vs = {}")
    case True
    have "build_query isid template vs = Inr (sql c, vs |` param_names c)"
      unfolding bq present [OF True] using empty_iff True by simp
    with True dom_eq show ?thesis by simp
  next
    case False
    then have "sorted_list_of_set (missing_names c vs) \<noteq> []" using empty_iff by simp
    with False show ?thesis unfolding bq by simp
  qed
  have raises: "isl (build_query isid template vs) = (missing_names c vs \<noteq> {})"
    using main by (cases "missing_names c vs = {}") simp_all
  show ?thesis
    using main ignore raises finm by (simp add: m [symmetric])
qed


theorem build_query_missing_or_params_witness:
  "compile_query_template ascii_isidentifier
       (''SELECT '' @ [CHR 0x27] @ ''{{'' @ [CHR 0x27] @ '' as lb, '' @ [CHR 0x27] @ ''}}''
          @ [CHR 0x27] @ '' as rb, {x} as v'')
     = Inr \<lparr> sql = ''SELECT '' @ [CHR 0x27] @ ''{'' @ [CHR 0x27] @ '' as lb, '' @ [CHR 0x27]
                      @ ''}'' @ [CHR 0x27] @ '' as rb, :x as v'',
              param_names = {''x''} \<rparr>
   \<and> build_query ascii_isidentifier
       (''SELECT '' @ [CHR 0x27] @ ''{{'' @ [CHR 0x27] @ '' as lb, '' @ [CHR 0x27] @ ''}}''
          @ [CHR 0x27] @ '' as rb, {x} as v'')
       [''x'' \<mapsto> 42 :: int, ''unused'' \<mapsto> 0]
     = Inr (''SELECT '' @ [CHR 0x27] @ ''{'' @ [CHR 0x27] @ '' as lb, '' @ [CHR 0x27]
              @ ''}'' @ [CHR 0x27] @ '' as rb, :x as v'',
            [''x'' \<mapsto> 42 :: int, ''unused'' \<mapsto> 0] |` {''x''})
   \<and> compile_query_template ascii_isidentifier ''{b} {a} {c}''
     = Inr \<lparr> sql = '':b :a :c'', param_names = {''a'', ''b'', ''c''} \<rparr>
   \<and> build_query ascii_isidentifier ''{b} {a} {c}'' [''c'' \<mapsto> 1 :: int]
     = Inl (KeyError ''Missing variables for query template: a, b'')"
proof -
  let ?T = "''SELECT '' @ [CHR 0x27] @ ''{{'' @ [CHR 0x27] @ '' as lb, '' @ [CHR 0x27] @ ''}}''
          @ [CHR 0x27] @ '' as rb, {x} as v''"
  let ?C = "\<lparr> sql = ''SELECT '' @ [CHR 0x27] @ ''{'' @ [CHR 0x27] @ '' as lb, '' @ [CHR 0x27]
                      @ ''}'' @ [CHR 0x27] @ '' as rb, :x as v'',
              param_names = {''x''} \<rparr>"
  let ?V = "[''x'' \<mapsto> 42 :: int, ''unused'' \<mapsto> 0]"
  let ?C2 = "\<lparr> sql = '':b :a :c'', param_names = {''a'', ''b'', ''c''} \<rparr>"
  let ?V2 = "[''c'' \<mapsto> 1 :: int]"
  have c1: "compile_query_template ascii_isidentifier ?T = Inr ?C" by code_simp
  have m1: "missing_names ?C ?V = {}" by code_simp
  have c2: "compile_query_template ascii_isidentifier ''{b} {a} {c}'' = Inr ?C2" by code_simp
  have m2: "missing_names ?C2 ?V2 \<noteq> {}" by code_simp
  have s2: "sorted_list_of_set (missing_names ?C2 ?V2) = [''a'', ''b'']" by code_simp
  have r1: "build_query ascii_isidentifier ?T ?V = Inr (sql ?C, ?V |` param_names ?C)"
    using build_query_missing_or_params [OF c1, of ?V] m1 by simp
  have r2: "build_query ascii_isidentifier ''{b} {a} {c}'' ?V2
              = Inl (KeyError ''Missing variables for query template: a, b'')"
    using build_query_missing_or_params [OF c2, of ?V2] m2 unfolding s2 by simp
  show ?thesis using c1 c2 r1 r2 by simp
qed


section \<open>Worker lifecycle (base.py and the five workers' stop)\<close>

datatype WorkerState = CREATED | RUNNING | STOPPING | STOPPED | ERROR

text \<open>
  The part of a worker object that \<open>stop()\<close> touches: the state field, the stop event and the
  device handle. Locks are not modelled; each method body is one atomic step.
\<close>

record worker =
  state :: WorkerState
  stop_event :: bool
  client_open :: bool

text \<open>\<open>BaseConnectionWorker._set_state\<close>.\<close>

definition set_state :: "WorkerState \<Rightarrow> worker \<Rightarrow> worker" where
  "set_state st w = w\<lparr>state := st\<rparr>"

text \<open>
  \<open>stop()\<close> of the easy-serial, mbox, mbox-counter and Modbus TCP workers (the same two
  statements in each), and of the Modbus RTU worker, which also closes its client.
\<close>

definition stop :: "worker \<Rightarrow> worker" where
  "stop w = (set_state STOPPING w)\<lparr>stop_event := True\<rparr>"

definition modbus_rtu_stop :: "worker \<Rightarrow> worker" where
  "modbus_rtu_stop w = ((set_state STOPPING w)\<lparr>stop_event := True\<rparr>)\<lparr>client_open := False\<rparr>"

text \<open>
  Claim C3, as stated: \<open>stop()\<close> on a worker that is not RUNNING leaves the state field
  unchanged. A freshly created worker refutes it.
\<close>

theorem stop_not_running_counterexample:
  "state \<lparr>state = CREATED, stop_event = False, client_open = False\<rparr> \<noteq> RUNNING
   \<and> state (stop \<lparr>state = CREATED, stop_event = False, client_open = False\<rparr>)
       \<noteq> state \<lparr>state = CREATED, stop_event = False, client_open = False\<rparr>"
  by (simp add: stop_def set_state_def)

text \<open>
  Claim C3, amended: for every worker, \<open>stop()\<close> sets the state field to STOPPING whatever
  the state was, and sets the stop event; the state field is unchanged by the call only when
  it already was STOPPING.
\<close>

theorem stop_sets_stopping:
  "state (stop w) = STOPPING \<and> stop_event (stop w)
   \<and> state (modbus_rtu_stop w) = STOPPING \<and> stop_event (modbus_rtu_stop w)
   \<and> (state (stop w) = state w) = (state w = STOPPING)
   \<and> (state (modbus_rtu_stop w) = state w) = (state w = STOPPING)"
  by (auto simp: stop_def modbus_rtu_stop_def set_state_def)

section \<open>Mbox records and transformer (mbox/parser.py, mbox/config.py, mbox/transform.py)\<close>

record datetime =
  year :: int
  month :: int
  day :: int
  hour :: int
  minute :: int
  second :: int
  microsecond :: int

text \<open>
  Python floats (weights, tare, times, timeouts) are values of an abstract type \<open>'f\<close>, with
  the operations the mbox code applies to them: \<open>+\<close>, \<open>-\<close>, \<open><\<close>, \<open>==\<close> and the constant
  \<open>0.0\<close>. Nothing is assumed about them, so rounding, infinities and NaN (for which \<open>==\<close>
  is not equality) are covered.
\<close>

record 'f py_float_ops =
  fl_add :: "'f \<Rightarrow> 'f \<Rightarrow> 'f"
  fl_sub :: "'f \<Rightarrow> 'f \<Rightarrow> 'f"
  fl_lt :: "'f \<Rightarrow> 'f \<Rightarrow> bool"
  fl_eq :: "'f \<Rightarrow> 'f \<Rightarrow> bool"
  fl_zero :: 'f

text \<open>Values of the variable dictionaries handed to the query template.\<close>

datatype 'f pyval = PInt int | PFloat 'f | PStr string | PBool bool | PDatetime datetime

type_synonym 'f vars = "string \<rightharpoonup> 'f pyval"

record 'f MboxLabelRecord =
  dt :: datetime
  sFishType :: string
  sSize :: string
  nWeight :: 'f
  rWeight :: 'f
  sSNumber :: string

record 'f MboxConfig =
  mbox_id :: int
  tare :: 'f
  lot :: string
  treat_zero_as_error :: bool
  treat_duplicate_as_error :: bool
  error_label_zero :: string
  error_label_duplicate :: string
  ext_counter :: bool
  counter_connection_id :: "int option"
  counter_device_id :: "int option"
  counter_clean_timeout :: 'f
  counter_miss_timeout :: 'f
  miss_strategy :: string
  miss_default :: "'f vars"
  miss_insert_limit :: int
  miss_error_label :: string

record 'f MboxTransformResult =
  variables :: "'f vars"
  on_error :: bool
  error_info :: string
  adj_r_weight :: 'f

text \<open>
  Step 1 of \<open>MboxTransformer.transform\<close>: apply the tare and clamp a negative value to
  \<open>0.0\<close>.
\<close>

definition tare_adjusted :: "'f py_float_ops \<Rightarrow> 'f MboxConfig \<Rightarrow> 'f MboxLabelRecord \<Rightarrow> 'f" where
  "tare_adjusted fl cfg rec =
     (let adj_r = fl_sub fl (rWeight rec) (tare cfg)
      in if fl_lt fl adj_r (fl_zero fl) then fl_zero fl else adj_r)"

text \<open>
  \<open>MboxTransformer.transform\<close>: the transformer's state is \<open>_last_adj_r_weight\<close>; the function
  returns the result and the new state.
\<close>

definition transform ::
  "'f py_float_ops \<Rightarrow> 'f MboxConfig \<Rightarrow> 'f option \<Rightarrow> int \<Rightarrow> 'f MboxLabelRecord
     \<Rightarrow> 'f MboxTransformResult \<times> 'f option" where
  "transform fl cfg last_adj_r_weight mbox_id_arg rec =
     (let adj_r = tare_adjusted fl cfg rec;
          (adj_r, on_err, err_info) =
             (if treat_zero_as_error cfg \<and> fl_eq fl adj_r (fl_zero fl)
              then (nWeight rec, True, error_label_zero cfg)
              else (adj_r, False, ''''));
          (on_err, err_info) =
             (if (\<not> on_err) \<and> treat_duplicate_as_error cfg
              then (case last_adj_r_weight of
                      None \<Rightarrow> (on_err, err_info)
                    | Some l \<Rightarrow> if fl_eq fl adj_r l then (True, error_label_duplicate cfg)
                               else (on_err, err_info))
              else (on_err, err_info));
          vs = map_of
            [(''mbox_id'', PInt mbox_id_arg),
             (''on_error'', PBool on_err),
             (''created_at'', PDatetime (dt rec)),
             (''fish_name'', PStr (sFishType rec)),
             (''fish_grade'', PStr (sSize rec)),
             (''lot'', PStr ''''),
             (''n_weight'', PFloat (nWeight rec)),
             (''r_weight'', PFloat adj_r),
             (''sn'', PStr (sSNumber rec)),
             (''error_info'', PStr err_info),
             (''tare'', PFloat (tare cfg))]
      in (\<lparr> variables = vs, on_error = on_err, error_info = err_info, adj_r_weight = adj_r \<rparr>,
          Some adj_r))"

text \<open>
  Claim C10. With \<open>treat_zero_as_error\<close> enabled and a tare-adjusted weight that clamps to zero
  (the adjusted value the code computes compares equal to \<open>0.0\<close>), the transformer stores the
  record's net weight (the value substituted into \<open>r_weight\<close>) as \<open>last_adj_r_weight\<close>, so the
  duplicate check of the next record is the code's \<open>==\<close> between that record's adjusted
  weight and this net weight.
\<close>

theorem zero_fallback_updates_last:
  assumes "treat_zero_as_error cfg" and "fl_eq fl (tare_adjusted fl cfg rec) (fl_zero fl)"
  shows "snd (transform fl cfg prev mid rec) = Some (nWeight rec)
         \<and> variables (fst (transform fl cfg prev mid rec)) ''r_weight''
             = Some (PFloat (nWeight rec))
         \<and> adj_r_weight (fst (transform fl cfg prev mid rec)) = nWeight rec
         \<and> on_error (fst (transform fl cfg prev mid rec))
         \<and> error_info (fst (transform fl cfg prev mid rec)) = error_label_zero cfg
         \<and> on_error (fst (transform fl cfg (snd (transform fl cfg prev mid rec)) mid rec2))
             = (fl_eq fl (tare_adjusted fl cfg rec2) (fl_zero fl)
                \<or> (treat_duplicate_as_error cfg
                    \<and> fl_eq fl (tare_adjusted fl cfg rec2) (nWeight rec)))"
proof -
  have 1: "snd (transform fl cfg prev mid rec) = Some (nWeight rec)"
    using assms by (simp add: transform_def Let_def)
  have 2: "variables (fst (transform fl cfg prev mid rec)) ''r_weight''
             = Some (PFloat (nWeight rec))"
    using assms by (simp add: transform_def Let_def)
  have 3: "adj_r_weight (fst (transform fl cfg prev mid rec)) = nWeight rec"
          "on_error (fst (transform fl cfg prev mid rec))"
          "error_info (fst (transform fl cfg prev mid rec)) = error_label_zero cfg"
    using assms by (simp_all add: transform_def Let_def)
  have 4: "on_error (fst (transform fl cfg (Some (nWeight rec)) mid rec2))
             = (fl_eq fl (tare_adjusted fl cfg rec2) (fl_zero fl)
                \<or> (treat_duplicate_as_error cfg
                    \<and> fl_eq fl (tare_adjusted fl cfg rec2) (nWeight rec)))"
    using assms(1) by (auto simp: transform_def Let_def)
  show ?thesis using 1 2 3 4 by simp
qed

text \<open>
  Exact arithmetic on the reals as one instance of the float operations, for evaluating
  examples; no theorem above depends on it.
\<close>

definition real_floats :: "real py_float_ops" where
  "real_floats = \<lparr> fl_add = (+), fl_sub = (-), fl_lt = (<), fl_eq = (=), fl_zero = 0 \<rparr>"

definition cfg_example :: "real MboxConfig" where
  "cfg_example = \<lparr> mbox_id = 7, tare = 1/2, lot = ''L1'',
     treat_zero_as_error = True, treat_duplicate_as_error = True,
     error_label_zero = ''no weight'', error_label_duplicate = ''no weight'',
     ext_counter = True, counter_connection_id = Some 2, counter_device_id = Some 1,
     counter_clean_timeout = 6, counter_miss_timeout = 4,
     miss_strategy = ''last'', miss_default = Map.empty, miss_insert_limit = 3,
     miss_error_label = ''scales error'' \<rparr>"

definition rec_example :: "real \<Rightarrow> real \<Rightarrow> real MboxLabelRecord" where
  "rec_example n r = \<lparr> dt = \<lparr> year = 2024, month = 1, day = 1, hour = 12, minute = 30,
       second = 15, microsecond = 999000 \<rparr>,
     sFishType = ''MACKEREL'', sSize = ''M'', nWeight = n, rWeight = r, sSNumber = ''SN123'' \<rparr>"

theorem zero_fallback_updates_last_witness:
  "treat_zero_as_error cfg_example
   \<and> fl_eq real_floats (tare_adjusted real_floats cfg_example (rec_example (25/2) (1/5)))
        (fl_zero real_floats)
   \<and> snd (transform real_floats cfg_example None 7 (rec_example (25/2) (1/5))) = Some (25/2)
   \<and> on_error (fst (transform real_floats cfg_example
          (snd (transform real_floats cfg_example None 7 (rec_example (25/2) (1/5))))
          7 (rec_example 3 13)))
   \<and> \<not> on_error (fst (transform real_floats cfg_example
          (snd (transform real_floats cfg_example None 7 (rec_example (25/2) (1/5))))
          7 (rec_example 3 14)))"
proof -
  have h1: "treat_zero_as_error cfg_example" by (simp add: cfg_example_def)
  have h2: "fl_eq real_floats (tare_adjusted real_floats cfg_example (rec_example (25/2) (1/5)))
              (fl_zero real_floats)"
    by (simp add: tare_adjusted_def real_floats_def cfg_example_def rec_example_def)
  have n: "nWeight (rec_example (25/2) (1/5)) = 25/2" by (simp add: rec_example_def)
  have a13: "(fl_eq real_floats (tare_adjusted real_floats cfg_example (rec_example 3 13))
                (fl_zero real_floats)
              \<or> (treat_duplicate_as_error cfg_example
                  \<and> fl_eq real_floats (tare_adjusted real_floats cfg_example (rec_example 3 13))
                       (nWeight (rec_example (25/2) (1/5))))) = True"
    by (simp add: tare_adjusted_def real_floats_def cfg_example_def rec_example_def)
  have a14: "(fl_eq real_floats (tare_adjusted real_floats cfg_example (rec_example 3 14))
                (fl_zero real_floats)
              \<or> (treat_duplicate_as_error cfg_example
                  \<and> fl_eq real_floats (tare_adjusted real_floats cfg_example (rec_example 3 14))
                       (nWeight (rec_example (25/2) (1/5))))) = False"
    by (simp add: tare_adjusted_def real_floats_def cfg_example_def rec_example_def)
  note t13 = zero_fallback_updates_last [OF h1 h2, of None 7 "rec_example 3 13"]
  note t14 = zero_fallback_updates_last [OF h1 h2, of None 7 "rec_example 3 14"]
  have r1: "snd (transform real_floats cfg_example None 7 (rec_example (25/2) (1/5))) = Some (25/2)"
    using t13 unfolding n by blast
  have r2: "on_error (fst (transform real_floats cfg_example
          (snd (transform real_floats cfg_example None 7 (rec_example (25/2) (1/5))))
          7 (rec_example 3 13)))"
    using t13 unfolding a13 by blast
  have r3: "\<not> on_error (fst (transform real_floats cfg_example
          (snd (transform real_floats cfg_example None 7 (rec_example (25/2) (1/5))))
          7 (rec_example 3 14)))"
    using t14 unfolding a14 by blast
  show ?thesis
    using h1 h2 r1 r2 r3 by blast
qed

section \<open>Easy-serial framer (easy_serial/framer.py)\<close>

text \<open>\<open>buf.find(sub, start)\<close> for \<open>start \<ge> 0\<close>; \<open>None\<close> stands for the result \<open>-1\<close>.\<close>

definition find_from :: "'a list \<Rightarrow> 'a list \<Rightarrow> nat \<Rightarrow> nat option" where
  "find_from xs sub start =
     (if start > length xs then None
      else map_option (\<lambda>i. start + i) (find_sub sub (drop start xs)))"

text \<open>
  The framer object: the decoded preamble (\<open>None\<close> when not configured), the decoded
  terminator and the internal buffer \<open>_buf\<close>.
\<close>

record EasySerialFramer =
  preamble_bytes :: "bytes option"
  terminator_bytes :: bytes
  buffer :: bytes

text \<open>
  The \<open>while True\<close> loop of \<open>feed\<close>. With an empty terminator and no preamble the loop never
  ends (it finds the terminator at position 0 and removes nothing), so the loop is a partial
  function and not returning is the value \<open>None\<close>.
\<close>

partial_function (option) easy_loop ::
  "bytes option \<Rightarrow> bytes \<Rightarrow> bytes \<Rightarrow> bytes list \<Rightarrow> (bytes list \<times> bytes) option" where
  "easy_loop pre terminator buf frames =
     (case (case pre of
              None \<Rightarrow> Inr (buf, 0)
            | Some p \<Rightarrow>
                (case find_sub p buf of
                   None \<Rightarrow>
                     let max_keep = int (length p) - 1 in
                     Inl (if max_keep > 0 \<and> int (length buf) > max_keep
                          then drop (nat (int (length buf) - max_keep)) buf else buf)
                 | Some idx \<Rightarrow> Inr (if idx > 0 then drop idx buf else buf, length p)))
      of
        Inl kept \<Rightarrow> Some (frames, kept)
      | Inr (buf1, start_index) \<Rightarrow>
          (case find_from buf1 terminator start_index of
             None \<Rightarrow> Some (frames, buf1)
           | Some term_idx \<Rightarrow>
               easy_loop pre terminator (drop (term_idx + length terminator) buf1)
                 (frames @ [slice buf1 start_index term_idx])))"

declare easy_loop.simps [code]

definition easy_feed :: "EasySerialFramer \<Rightarrow> bytes \<Rightarrow> (bytes list \<times> EasySerialFramer) option" where
  "easy_feed fr data =
     (if data = [] then Some ([], fr)
      else map_option (\<lambda>(frames, b). (frames, fr\<lparr>buffer := b\<rparr>))
             (easy_loop (preamble_bytes fr) (terminator_bytes fr) (buffer fr @ data) []))"

lemma find_sub_single_None: "p \<notin> set xs \<Longrightarrow> find_sub [p] xs = None"
  by (induction xs) auto

lemma find_sub_Some_le: "find_sub sub xs = Some i \<Longrightarrow> i \<le> length xs"
  by (induction xs arbitrary: i) (auto split: if_splits)

lemma find_sub_Some_less: "find_sub sub xs = Some i \<Longrightarrow> sub \<noteq> [] \<Longrightarrow> i < length xs"
  by (induction xs arbitrary: i) (auto split: if_splits)

lemma find_sub_Some_drop: "find_sub sub xs = Some i \<Longrightarrow> find_sub sub (drop i xs) = Some 0"
proof (induction xs arbitrary: i)
  case Nil
  then show ?case by (simp split: if_splits)
next
  case (Cons x xs)
  show ?case
  proof (cases "take (length sub) (x # xs) = sub")
    case True
    with Cons.prems show ?thesis by simp
  next
    case False
    with Cons.prems obtain j where j: "find_sub sub xs = Some j" "i = Suc j" by auto
    with Cons.IH [OF j(1)] show ?thesis by simp
  qed
qed

lemma find_from_Some_less:
  "find_from xs sub start = Some i \<Longrightarrow> sub \<noteq> [] \<Longrightarrow> xs \<noteq> []"
  by (auto simp: find_from_def split: if_splits)

text \<open>The loop returns whenever the terminator is not empty.\<close>

lemma easy_loop_returns:
  assumes "terminator \<noteq> []"
  shows "\<exists>r. easy_loop pre terminator buf frames = Some r"
proof (induction "length buf" arbitrary: buf frames rule: less_induct)
  case less
  define step where "step =
     (case pre of
        None \<Rightarrow> Inr (buf, 0)
      | Some p \<Rightarrow>
          (case find_sub p buf of
             None \<Rightarrow>
               let max_keep = int (length p) - 1 in
               Inl (if max_keep > 0 \<and> int (length buf) > max_keep
                    then drop (nat (int (length buf) - max_keep)) buf else buf)
           | Some idx \<Rightarrow> Inr (if idx > 0 then drop idx buf else buf, length p)))"
  have unf: "easy_loop pre terminator buf frames =
     (case step of
        Inl kept \<Rightarrow> Some (frames, kept)
      | Inr (buf1, start_index) \<Rightarrow>
          (case find_from buf1 terminator start_index of
             None \<Rightarrow> Some (frames, buf1)
           | Some term_idx \<Rightarrow>
               easy_loop pre terminator (drop (term_idx + length terminator) buf1)
                 (frames @ [slice buf1 start_index term_idx])))"
    unfolding step_def by (subst easy_loop.simps) simp
  show ?case
  proof (cases step)
    case (Inl kept)
    then show ?thesis by (simp add: unf)
  next
    case (Inr pr)
    obtain buf1 start_index where pr: "pr = (buf1, start_index)" by (cases pr)
    have len1: "length buf1 \<le> length buf"
      using Inr pr unfolding step_def by (auto simp: Let_def split: option.splits if_splits)
    show ?thesis
    proof (cases "find_from buf1 terminator start_index")
      case None
      then show ?thesis using Inr pr by (simp add: unf)
    next
      case (Some term_idx)
      have "0 < length buf1" using find_from_Some_less [OF Some assms] by simp
      moreover have "0 < length terminator" using assms by simp
      ultimately have "length buf1 - (term_idx + length terminator) < length buf"
        using len1 by linarith
      then have "length (drop (term_idx + length terminator) buf1) < length buf"
        by simp
      from less [OF this] show ?thesis using Inr pr Some by (simp add: unf)
    qed
  qed
qed

text \<open>A one-byte preamble: nothing is trimmed while the preamble byte does not arrive.\<close>

lemma easy_loop_single_byte_noise:
  "p \<notin> set buf \<Longrightarrow> easy_loop (Some [p]) terminator buf frames = Some (frames, buf)"
  by (subst easy_loop.simps) (simp add: find_sub_single_None)

text \<open>
  With a preamble of two or more bytes the trimming works as the comment in the source says:
  a buffer left without any occurrence of the preamble holds at most \<open>len(preamble) - 1\<close> bytes.
\<close>

lemma easy_loop_bound:
  assumes "terminator \<noteq> []" and "2 \<le> length p"
  shows "easy_loop (Some p) terminator buf frames = Some (fs, kept) \<Longrightarrow> find_sub p kept = None
         \<Longrightarrow> length kept \<le> length p - 1"
proof (induction "length buf" arbitrary: buf frames rule: less_induct)
  case less
  note res = less.prems(1) and nop = less.prems(2)
  show ?case
  proof (cases "find_sub p buf")
    case None
    have "kept = (if int (length buf) > int (length p) - 1
                  then drop (nat (int (length buf) - (int (length p) - 1))) buf else buf)"
      using res None assms(2) by (subst (asm) easy_loop.simps) (simp add: Let_def)
    then show ?thesis using assms(2) by (auto split: if_splits)
  next
    case (Some idx)
    define buf1 where "buf1 = (if idx > 0 then drop idx buf else buf)"
    have b1: "buf1 = drop idx buf" by (simp add: buf1_def)
    have starts: "find_sub p buf1 = Some 0" unfolding b1 using Some by (rule find_sub_Some_drop)
    have unf: "easy_loop (Some p) terminator buf frames =
          (case find_from buf1 terminator (length p) of
             None \<Rightarrow> Some (frames, buf1)
           | Some term_idx \<Rightarrow>
               easy_loop (Some p) terminator (drop (term_idx + length terminator) buf1)
                 (frames @ [slice buf1 (length p) term_idx]))"
      by (subst easy_loop.simps)
         (simp only: Some option.case sum.case prod.case buf1_def [symmetric])
    show ?thesis
    proof (cases "find_from buf1 terminator (length p)")
      case None
      with res unf have "kept = buf1" by simp
      with starts nop show ?thesis by simp
    next
      case (Some term_idx)
      have "0 < length buf1" using find_from_Some_less [OF Some assms(1)] by simp
      moreover have "0 < length terminator" using assms(1) by simp
      moreover have "length buf1 \<le> length buf" by (simp add: b1)
      ultimately have "length buf1 - (term_idx + length terminator) < length buf" by linarith
      then have smaller: "length (drop (term_idx + length terminator) buf1) < length buf" by simp
      have "easy_loop (Some p) terminator (drop (term_idx + length terminator) buf1)
                 (frames @ [slice buf1 (length p) term_idx]) = Some (fs, kept)"
        using res unf Some by simp
      from less.hyps [OF smaller this nop] show ?thesis .
    qed
  qed
qed

lemma easy_feed_noise_bounded:
  assumes "preamble_bytes fr = Some p" and "2 \<le> length p" and "terminator_bytes fr \<noteq> []"
    and "data \<noteq> []" and "easy_feed fr data = Some (fs, fr')"
    and "find_sub p (buffer fr') = None"
  shows "length (buffer fr') \<le> length p - 1"
proof -
  from assms(5) assms(4) assms(1) obtain kept where
    k: "easy_loop (Some p) (terminator_bytes fr) (buffer fr @ data) [] = Some (fs, kept)"
    and fr': "fr' = fr\<lparr>buffer := kept\<rparr>"
    by (auto simp: easy_feed_def)
  from easy_loop_bound [OF assms(3) assms(2) k] assms(6) fr' show ?thesis by simp
qed

lemma easy_feed_keeps_bound:
  assumes "preamble_bytes fr = Some p" and "2 \<le> length p" and "terminator_bytes fr \<noteq> []"
    and "easy_feed fr data = Some (fs, fr')"
    and "find_sub p (buffer fr) = None \<Longrightarrow> length (buffer fr) \<le> length p - 1"
    and "find_sub p (buffer fr') = None"
  shows "length (buffer fr') \<le> length p - 1"
proof (cases "data = []")
  case True
  with assms(4) have "fr' = fr" by (simp add: easy_feed_def)
  with assms(5) assms(6) show ?thesis by simp
next
  case False
  from easy_feed_noise_bounded [OF assms(1) assms(2) assms(3) False assms(4) assms(6)]
  show ?thesis .
qed

text \<open>
  \<open>decode_escaped_bytes\<close>: the \<open>while i < n\<close> loop, stated on the part of the pattern from
  position \<open>i\<close> on, with the bytearray \<open>result\<close> as accumulator. \<open>int16\<close> is Python's
  \<open>int(_, 16)\<close>, \<open>None\<close> where it raises ValueError. Characters are 8-bit, so the ValueError
  of \<open>result.append(ord(ch))\<close> for a code point above 255 is outside the model.
\<close>

function decode_loop :: "(string \<Rightarrow> int option) \<Rightarrow> string \<Rightarrow> bytes \<Rightarrow> bytes" where
  "decode_loop int16 rest result =
     (case rest of
        [] \<Rightarrow> result
      | ch # tail \<Rightarrow>
          if ch \<noteq> CHR 0x5C then decode_loop int16 tail (result @ [word_of_nat (of_char ch)])
          else
            (case tail of
               [] \<Rightarrow> decode_loop int16 tail (result @ [0x5C])
             | nxt # after \<Rightarrow>
                 if nxt = CHR ''n'' then decode_loop int16 after (result @ [0x0A])
                 else if nxt = CHR ''r'' then decode_loop int16 after (result @ [0x0D])
                 else if nxt = CHR ''t'' then decode_loop int16 after (result @ [0x09])
                 else if nxt = CHR ''0'' then decode_loop int16 after (result @ [0x00])
                 else if nxt = CHR ''b'' then decode_loop int16 after (result @ [0x08])
                 else if nxt = CHR ''f'' then decode_loop int16 after (result @ [0x0C])
                 else if nxt = CHR ''v'' then decode_loop int16 after (result @ [0x0B])
                 else if nxt = CHR ''a'' then decode_loop int16 after (result @ [0x07])
                 else if nxt = CHR 0x5C then decode_loop int16 after (result @ [0x5C])
                 else if nxt = CHR ''x'' \<and> 2 \<le> length after then
                   (case int16 (take 2 after) of
                      None \<Rightarrow> decode_loop int16 tail (result @ [0x5C])
                    | Some v \<Rightarrow>
                        if 0 \<le> v \<and> v \<le> 255
                        then decode_loop int16 (drop 2 after) (result @ [word_of_int v])
                        else decode_loop int16 tail (result @ [0x5C]))
                 else if nxt = CHR ''u'' \<and> 4 \<le> length after then
                   (case int16 (take 4 after) of
                      None \<Rightarrow> decode_loop int16 tail (result @ [0x5C])
                    | Some code \<Rightarrow>
                        decode_loop int16 (drop 4 after)
                          (result @ [if 0 \<le> code \<and> code \<le> 255 then word_of_int code
                                     else word_of_int (code AND 0xFF)]))
                 else decode_loop int16 tail (result @ [0x5C])))"
  by pat_completeness auto
termination
  by (relation "measure (\<lambda>(int16, rest, result). length rest)") auto

declare decode_loop.simps [simp del]

definition decode_escaped_bytes :: "(string \<Rightarrow> int option) \<Rightarrow> string option \<Rightarrow> bytes option" where
  "decode_escaped_bytes int16 pattern =
     (case pattern of None \<Rightarrow> None | Some p \<Rightarrow> Some (decode_loop int16 p []))"

text \<open>\<open>EasySerialFramer.__init__\<close>.\<close>

definition EasySerialFramer_init ::
  "(string \<Rightarrow> int option) \<Rightarrow> string option \<Rightarrow> string \<Rightarrow> py_exception + EasySerialFramer" where
  "EasySerialFramer_init int16 preamble terminator =
     (if terminator = [] then Inl (ValueError ''terminator must be non-empty string'')
      else Inr \<lparr> preamble_bytes = decode_escaped_bytes int16 preamble,
                 terminator_bytes = decode_loop int16 terminator [],
                 buffer = [] \<rparr>)"

lemma decode_loop_grows:
  "length result + (if rest = [] then 0 else 1) \<le> length (decode_loop int16 rest result)"
proof (induction "length rest" arbitrary: rest result rule: less_induct)
  case less
  have IH: "Suc (length result') \<le> length (decode_loop int16 rest' (result' @ [b]))"
    if "length rest' < length rest" for rest' result' b
    using less [OF that, of "result' @ [b]"] by (simp split: if_splits)
  show ?case
  proof (cases rest)
    case Nil
    then show ?thesis by (simp add: decode_loop.simps [of int16 "[]"])
  next
    case (Cons ch tail)
    show ?thesis
      unfolding Cons
      by (subst decode_loop.simps) (simp add: IH [unfolded Cons] split: list.splits option.splits)
  qed
qed

lemma decode_loop_nonempty: "pattern \<noteq> [] \<Longrightarrow> decode_loop int16 pattern [] \<noteq> []"
  using decode_loop_grows [of "[]" pattern int16] by auto

text \<open>
  A framer that the constructor returns has a non-empty terminator, and a non-empty
  preamble when the preamble string is not empty; so its \<open>feed\<close> always returns.
\<close>

lemma init_terminator:
  "EasySerialFramer_init int16 preamble terminator = Inr fr \<Longrightarrow> terminator_bytes fr \<noteq> []"
  by (auto simp: EasySerialFramer_init_def decode_loop_nonempty split: if_splits)

lemma init_preamble:
  "EasySerialFramer_init int16 (Some p) terminator = Inr fr \<Longrightarrow> p \<noteq> [] \<Longrightarrow>
     \<exists>bs. preamble_bytes fr = Some bs \<and> bs \<noteq> []"
  by (auto simp: EasySerialFramer_init_def decode_escaped_bytes_def decode_loop_nonempty
           split: if_splits)

lemma easy_feed_returns:
  "terminator_bytes fr \<noteq> [] \<Longrightarrow> \<exists>frames fr'. easy_feed fr data = Some (frames, fr')"
proof -
  assume t: "terminator_bytes fr \<noteq> []"
  obtain r where "easy_loop (preamble_bytes fr) (terminator_bytes fr) (buffer fr @ data) [] = Some r"
    using easy_loop_returns [OF t] by blast
  then show ?thesis by (cases r) (simp add: easy_feed_def)
qed

lemma decode_escaped_bytes_examples:
  "decode_loop (\<lambda>s. None) ''ABC'' [] = [0x41, 0x42, 0x43]"
  "decode_loop (\<lambda>s. None) [CHR 0x5C, CHR ''n''] [] = [0x0A]"
  "decode_loop (\<lambda>s. None) [CHR 0x5C, CHR ''r'', CHR 0x5C, CHR ''n''] [] = [0x0D, 0x0A]"
  "decode_loop (\<lambda>s. if s = ''02'' then Some 2 else None) ([CHR 0x5C] @ ''x02$'') [] = [0x02, 0x24]"
  "decode_loop (\<lambda>s. if s = ''0002'' then Some 2 else None) ([CHR 0x5C] @ ''u0002$'') []
     = [0x02, 0x24]"
  "decode_loop (\<lambda>s. None) ([CHR 0x5C, CHR 0x5C] @ ''x02'') [] = [0x5C, 0x78, 0x30, 0x32]"
  by code_simp+

text \<open>
  Claim C1, at a one-byte preamble: the guard \<open>max_keep > 0\<close> switches the trimming off, so
  every byte of noise stays in the buffer, which grows with each call.
\<close>

theorem single_byte_preamble_keeps_noise:
  assumes "preamble_bytes fr = Some [p]" and "p \<notin> set (buffer fr)" and "p \<notin> set data"
    and "data \<noteq> []"
  shows "easy_feed fr data = Some ([], fr\<lparr>buffer := buffer fr @ data\<rparr>)
         \<and> find_sub [p] (buffer fr @ data) = None
         \<and> length (buffer fr @ data) > length [p] - 1"
  using assms
  by (simp add: easy_feed_def easy_loop_single_byte_noise find_sub_single_None)

theorem single_byte_preamble_keeps_noise_witness:
  "EasySerialFramer_init (\<lambda>s. None) (Some ''A'') [CHR 0x5C, CHR ''n'']
     = Inr \<lparr>preamble_bytes = Some [0x41], terminator_bytes = [0x0A], buffer = []\<rparr>
   \<and> easy_feed \<lparr>preamble_bytes = Some [0x41], terminator_bytes = [0x0A], buffer = []\<rparr>
         [0x78, 0x79]
       = Some ([], \<lparr>preamble_bytes = Some [0x41], terminator_bytes = [0x0A],
                    buffer = [0x78, 0x79]\<rparr>)
   \<and> easy_feed \<lparr>preamble_bytes = Some [0x41], terminator_bytes = [0x0A], buffer = [0x78, 0x79]\<rparr>
         [0x7A, 0x7A, 0x7A]
       = Some ([], \<lparr>preamble_bytes = Some [0x41], terminator_bytes = [0x0A],
                    buffer = [0x78, 0x79, 0x7A, 0x7A, 0x7A]\<rparr>)
   \<and> find_sub [0x41 :: byte] [0x78, 0x79, 0x7A, 0x7A, 0x7A] = None
   \<and> length [0x78 :: byte, 0x79, 0x7A, 0x7A, 0x7A] > length [0x41 :: byte] - 1"
proof -
  let ?fr0 = "\<lparr>preamble_bytes = Some [0x41 :: byte], terminator_bytes = [0x0A], buffer = []\<rparr>"
  let ?fr1 = "\<lparr>preamble_bytes = Some [0x41 :: byte], terminator_bytes = [0x0A],
               buffer = [0x78, 0x79]\<rparr>"
  have init: "EasySerialFramer_init (\<lambda>s. None) (Some ''A'') [CHR 0x5C, CHR ''n''] = Inr ?fr0"
    by code_simp
  have p0: "preamble_bytes ?fr0 = Some [0x41]" and p1: "preamble_bytes ?fr1 = Some [0x41]"
    by simp_all
  have b0: "0x41 \<notin> set (buffer ?fr0)" and b1: "0x41 \<notin> set (buffer ?fr1)" by simp_all
  have d0: "(0x41 :: byte) \<notin> set [0x78, 0x79]" and d1: "(0x41 :: byte) \<notin> set [0x7A, 0x7A, 0x7A]"
    by simp_all
  have n0: "[0x78 :: byte, 0x79] \<noteq> []" and n1: "[0x7A :: byte, 0x7A, 0x7A] \<noteq> []" by simp_all
  note first = single_byte_preamble_keeps_noise [OF p0 b0 d0 n0]
  note second = single_byte_preamble_keeps_noise [OF p1 b1 d1 n1]
  show ?thesis using init first second by simp
qed

section \<open>Mbox label parser (mbox/parser.py)\<close>

text \<open>\<open>text.split(",")\<close>: splitting on a one-character separator; the result is never empty.\<close>

fun split_on :: "char \<Rightarrow> string \<Rightarrow> string list" where
  "split_on sep [] = [[]]"
| "split_on sep (c # cs) =
     (if c = sep then [] # split_on sep cs
      else (case split_on sep cs of
              w # ws \<Rightarrow> (c # w) # ws
            | [] \<Rightarrow> [[c]]))"

text \<open>
  \<open>payload.decode("ascii")\<close>: fails at the first byte above 0x7f, with Python's message.
\<close>

fun ascii_decode_from :: "nat \<Rightarrow> bytes \<Rightarrow> string + string" where
  "ascii_decode_from pos [] = Inr []"
| "ascii_decode_from pos (x # xs) =
     (if unat x \<ge> 128
      then Inl ([CHR 0x27] @ ''ascii'' @ [CHR 0x27] @ '' codec can'' @ [CHR 0x27]
                @ ''t decode byte 0x'' @ hex02 x @ '' in position '' @ str_nat pos
                @ '': ordinal not in range(128)'')
      else (case ascii_decode_from (Suc pos) xs of
              Inl e \<Rightarrow> Inl e
            | Inr s \<Rightarrow> Inr (char_of (unat x) # s)))"

definition ascii_decode :: "bytes \<Rightarrow> string + string" where
  "ascii_decode payload = ascii_decode_from 0 payload"

text \<open>\<open>text.encode("ascii")\<close> of a string of 7-bit characters, for writing payloads down.\<close>

definition ascii_encode :: "string \<Rightarrow> bytes" where
  "ascii_encode s = map (\<lambda>c. word_of_nat (of_char c)) s"

text \<open>
  \<open>parse_label_frame\<close>. Three library calls are parameters: \<open>decode\<close> is
  \<open>payload.decode(encoding)\<close> (\<open>Inl\<close> carries the text of the exception it raised), \<open>strptime\<close>
  is \<open>datetime.strptime(_, "%Y%m%d%H%M%S%f")\<close> and \<open>py_float\<close> is \<open>float(_)\<close>, each \<open>None\<close>
  where Python raises ValueError. The handler around the two weight conversions catches
  ValueError only, so the IndexError of \<open>parts[10]\<close> leaves the function as it is.
\<close>

definition parse_label_frame ::
  "(bytes \<Rightarrow> string + string) \<Rightarrow> (string \<Rightarrow> datetime option) \<Rightarrow> (string \<Rightarrow> 'f option)
     \<Rightarrow> bytes \<Rightarrow> py_exception + 'f MboxLabelRecord" where
  "parse_label_frame decode strptime py_float payload =
     (case decode payload of
        Inl exc \<Rightarrow> Inl (ValueError (''decode error: '' @ exc))
      | Inr decoded \<Rightarrow>
          let text = py_strip decoded;
              parts = split_on CHR '','' text
          in
          if length parts < 10
          then Inl (ValueError (''expected at least 10 fields, got '' @ str_nat (length parts)))
          else
            let ts_raw = parts ! 0 in
            (case strptime ts_raw of
               None \<Rightarrow> Inl (ValueError (''invalid datetime '' @ [CHR 0x27] @ ts_raw @ [CHR 0x27]))
             | Some d \<Rightarrow>
                 (case py_float (parts ! 9) of
                    None \<Rightarrow> Inl (ValueError ''invalid weight value'')
                  | Some n_weight \<Rightarrow>
                      (case py_index parts 10 of
                         Inl e \<Rightarrow> Inl e
                       | Inr p10 \<Rightarrow>
                           (case py_float p10 of
                              None \<Rightarrow> Inl (ValueError ''invalid weight value'')
                            | Some r_weight \<Rightarrow>
                                Inr \<lparr> dt = d,
                                      sFishType = py_strip (parts ! 6),
                                      sSize = py_strip (parts ! 8),
                                      nWeight = n_weight,
                                      rWeight = r_weight,
                                      sSNumber = py_strip (parts ! 7) \<rparr>)))))"

text \<open>With eleven or more columns every failure is a ValueError, and so is fewer than ten.\<close>

lemma parse_eleven_columns_value_error:
  assumes "decode payload = Inr decoded"
    and "11 \<le> length (split_on CHR '','' (py_strip decoded))"
    and "parse_label_frame decode strptime py_float payload = Inl e"
  shows "\<exists>msg. e = ValueError msg"
  using assms
  by (auto simp: parse_label_frame_def Let_def py_index_def split: option.splits if_splits)

lemma parse_short_value_error:
  assumes "decode payload = Inr decoded"
    and "length (split_on CHR '','' (py_strip decoded)) < 10"
  shows "parse_label_frame decode strptime py_float payload
           = Inl (ValueError (''expected at least 10 fields, got ''
                    @ str_nat (length (split_on CHR '','' (py_strip decoded)))))"
  using assms by (simp add: parse_label_frame_def Let_def)

lemma parse_undecodable_value_error:
  "decode payload = Inl exc \<Longrightarrow>
     parse_label_frame decode strptime py_float payload = Inl (ValueError (''decode error: '' @ exc))"
  by (simp add: parse_label_frame_def)

text \<open>
  Claim C2, at exactly ten columns: the guard is \<open>len(parts) < 10\<close>, so ten columns pass it,
  and with a well-formed date and net weight the read of \<open>parts[10]\<close> raises IndexError, which
  is not a ValueError.
\<close>

theorem parse_ten_columns_index_error:
  assumes "decode payload = Inr decoded"
    and "length (split_on CHR '','' (py_strip decoded)) = 10"
    and "strptime (split_on CHR '','' (py_strip decoded) ! 0) = Some d"
    and "py_float (split_on CHR '','' (py_strip decoded) ! 9) = Some w"
  shows "parse_label_frame decode strptime py_float payload = Inl (IndexError ''list index out of range'')"
  using assms by (simp add: parse_label_frame_def Let_def py_index_def)

lemma ten_columns_example:
  "ascii_decode (ascii_encode ''20240101123015999,H,F,,0,0,MACKEREL,SN123,M,12.5'')
     = Inr ''20240101123015999,H,F,,0,0,MACKEREL,SN123,M,12.5''"
  "split_on CHR '','' (py_strip ''20240101123015999,H,F,,0,0,MACKEREL,SN123,M,12.5'')
     = [''20240101123015999'', ''H'', ''F'', '''', ''0'', ''0'', ''MACKEREL'', ''SN123'', ''M'', ''12.5'']"
  by code_simp+

text \<open>
  The values of \<open>strptime\<close> and \<open>float\<close> on the strings of the example payloads; everywhere
  else these two stand-ins reject.
\<close>

definition strptime_example :: "string \<Rightarrow> datetime option" where
  "strptime_example s =
     (if s = ''20240101123015999''
      then Some \<lparr> year = 2024, month = 1, day = 1, hour = 12, minute = 30, second = 15,
                   microsecond = 999000 \<rparr>
      else None)"

definition float_example :: "string \<Rightarrow> real option" where
  "float_example s =
     (if s = ''12.5'' then Some (25/2) else if s = ''13.1'' then Some (131/10) else None)"

theorem parse_ten_columns_index_error_witness:
  "ascii_decode (ascii_encode ''20240101123015999,H,F,,0,0,MACKEREL,SN123,M,12.5'')
     = Inr ''20240101123015999,H,F,,0,0,MACKEREL,SN123,M,12.5''
   \<and> length (split_on CHR '','' (py_strip ''20240101123015999,H,F,,0,0,MACKEREL,SN123,M,12.5'')) = 10
   \<and> parse_label_frame ascii_decode strptime_example float_example
         (ascii_encode ''20240101123015999,H,F,,0,0,MACKEREL,SN123,M,12.5'')
       = Inl (IndexError ''list index out of range'')"
proof -
  let ?T = "''20240101123015999,H,F,,0,0,MACKEREL,SN123,M,12.5''"
  note ex = ten_columns_example
  have h1: "ascii_decode (ascii_encode ?T) = Inr ?T" by (rule ex(1))
  have h2: "length (split_on CHR '','' (py_strip ?T)) = 10" unfolding ex(2) by simp
  have h3: "strptime_example (split_on CHR '','' (py_strip ?T) ! 0)
              = Some \<lparr> year = 2024, month = 1, day = 1, hour = 12, minute = 30, second = 15,
                         microsecond = 999000 \<rparr>"
    unfolding ex(2) by (simp add: strptime_example_def)
  have h4: "float_example (split_on CHR '','' (py_strip ?T) ! 9) = Some (25/2)"
    unfolding ex(2) by (simp add: float_example_def)
  show ?thesis
    using parse_ten_columns_index_error
            [where decode = ascii_decode and strptime = strptime_example
               and py_float = float_example, OF h1 h2 h3 h4] h1 h2
    by blast
qed

lemma parse_example_record:
  "parse_label_frame ascii_decode strptime_example float_example
     (ascii_encode ''20240101123015999,H,F,,0,0,MACKEREL,SN123,M,12.5,13.1,,AA'')
   = Inr \<lparr> dt = \<lparr> year = 2024, month = 1, day = 1, hour = 12, minute = 30, second = 15,
                    microsecond = 999000 \<rparr>,
           sFishType = ''MACKEREL'', sSize = ''M'', nWeight = 25/2, rWeight = 131/10,
           sSNumber = ''SN123'' \<rparr>"
proof -
  let ?T = "''20240101123015999,H,F,,0,0,MACKEREL,SN123,M,12.5,13.1,,AA''"
  have d: "ascii_decode (ascii_encode ?T) = Inr ?T" by code_simp
  have p: "split_on CHR '','' (py_strip ?T)
     = [''20240101123015999'', ''H'', ''F'', [], ''0'', ''0'', ''MACKEREL'', ''SN123'', ''M'',
        ''12.5'', ''13.1'', [], ''AA'']" by code_simp
  have s: "py_strip ''MACKEREL'' = ''MACKEREL''" "py_strip ''M'' = ''M''"
          "py_strip ''SN123'' = ''SN123''" by code_simp+
  show ?thesis
    unfolding parse_label_frame_def d sum.case Let_def p
    by (simp add: strptime_example_def float_example_def py_index_def s)
qed

section \<open>Mbox worker: counter reconciliation (mbox/worker.py)\<close>

text \<open>
  What the worker is constructed with: the connection config (the two fields the worker
  reads), the mbox config, the DB writer (absent, or a function that says whether
  \<open>write(sql, params)\<close> returns, \<open>True\<close>, or raises, \<open>False\<close>) and the library functions the
  parser and the template compiler call, with the float operations \<open>lib_floats\<close>.
\<close>

record LoggerConnectionConfig =
  enabled :: bool
  query_template :: "string option"

record 'f mbox_env =
  config :: LoggerConnectionConfig
  mbox_cfg :: "'f MboxConfig"
  db_writer :: "(string \<Rightarrow> 'f vars \<Rightarrow> bool) option"
  lib_isidentifier :: "string \<Rightarrow> bool"
  lib_decode :: "bytes \<Rightarrow> string + string"
  lib_strptime :: "string \<Rightarrow> datetime option"
  lib_float :: "string \<Rightarrow> 'f option"
  lib_floats :: "'f py_float_ops"

text \<open>
  The worker's mutable state: the five reconciliation fields, the transformer's
  \<open>_last_adj_r_weight\<close>, the integer counters among the metrics, and \<open>db_calls\<close>, the
  \<open>(sql, params)\<close> pairs handed to \<open>db_writer.write\<close>, in order. Times are floats; log
  buffers, time-stamp metrics and latencies are left out.
\<close>

record 'f MboxConnectionWorker =
  counter_last_total :: "int option"
  pending_pack_ts :: "'f option"
  miss_deadline_ts :: "'f option"
  pending_miss :: int
  last_good_vars :: "'f vars option"
  last_adj_r_weight :: "'f option"
  db_calls :: "(string \<times> 'f vars) list"
  frames_total :: int
  parse_ok_total :: int
  parse_fail_total :: int
  packs_total :: int
  packs_clean_total :: int
  packs_miss_total :: int
  counter_increments_total :: int
  counter_confirm_total :: int
  db_writes_total :: int
  db_write_fail_total :: int

text \<open>
  \<open>_read_counter_total\<close>; \<open>provider\<close> is the injected callback as it answers at this moment.
\<close>

definition read_counter_total ::
  "'f MboxConfig \<Rightarrow> (int \<Rightarrow> int \<Rightarrow> int option) option \<Rightarrow> int option" where
  "read_counter_total cfg provider =
     (if \<not> ext_counter cfg then None
      else case provider of
             None \<Rightarrow> None
           | Some f \<Rightarrow>
               (case counter_connection_id cfg of
                  None \<Rightarrow> None
                | Some counter_conn_id \<Rightarrow>
                    (case counter_device_id cfg of
                       None \<Rightarrow> None
                     | Some device_id \<Rightarrow> f counter_conn_id device_id)))"

definition tick_counter_logic ::
  "'f mbox_env \<Rightarrow> (int \<Rightarrow> int \<Rightarrow> int option) option \<Rightarrow> 'f \<Rightarrow> 'f MboxConnectionWorker
     \<Rightarrow> 'f MboxConnectionWorker" where
  "tick_counter_logic env provider now s =
     (case read_counter_total (mbox_cfg env) provider of
        None \<Rightarrow> s
      | Some counter_total \<Rightarrow>
          (case counter_last_total s of
             None \<Rightarrow> s\<lparr>counter_last_total := Some counter_total\<rparr>
           | Some last_total \<Rightarrow>
               let delta = counter_total - last_total in
               if delta \<le> 0 then s
               else
                 let s1 = s\<lparr>counter_increments_total := counter_increments_total s + delta,
                            counter_last_total := Some counter_total\<rparr>
                 in
                 if pending_pack_ts s1 \<noteq> None
                 then s1\<lparr>pending_pack_ts := None,
                         counter_confirm_total := counter_confirm_total s1 + 1\<rparr>
                 else s1\<lparr>pending_miss := pending_miss s1 + delta,
                         miss_deadline_ts :=
                           Some (fl_add (lib_floats env) now
                                   (counter_miss_timeout (mbox_cfg env)))\<rparr>))"

text \<open>
  The variables of a synthetic miss record: the base dictionary with the six overrides;
  \<open>wall\<close> is the local time text \<open>time.strftime\<close> returns.
\<close>

definition miss_vars :: "'f MboxConfig \<Rightarrow> 'f MboxConnectionWorker \<Rightarrow> string \<Rightarrow> 'f vars" where
  "miss_vars cfg s wall =
     (let base = (if miss_strategy cfg = ''last'' then last_good_vars s else None);
          base = (case base of None \<Rightarrow> miss_default cfg | Some b \<Rightarrow> b)
      in base(''mbox_id'' \<mapsto> PInt (mbox_id cfg),
              ''tare'' \<mapsto> PFloat (tare cfg),
              ''lot'' \<mapsto> PStr (lot cfg),
              ''on_error'' \<mapsto> PBool True,
              ''error_info'' \<mapsto> PStr (miss_error_label cfg),
              ''created_at'' \<mapsto> PStr wall))"

text \<open>
  \<open>build_query\<close> on the config's template: \<open>len(None)\<close> raises TypeError when the template is
  not set.
\<close>

definition build_query_opt ::
  "(string \<Rightarrow> bool) \<Rightarrow> string option \<Rightarrow> 'f vars
     \<Rightarrow> py_exception + (string \<times> 'f vars)" where
  "build_query_opt isid template vs =
     (case template of
        None \<Rightarrow> Inl (TypeError (''object of type '' @ [CHR 0x27] @ ''NoneType'' @ [CHR 0x27]
                      @ '' has no len()''))
      | Some t \<Rightarrow> build_query isid t vs)"

text \<open>
  \<open>_insert_miss_pack\<close>. \<open>build_query\<close> is called outside the \<open>try\<close>, so its exception leaves
  the method; a failing write is caught and counted. The result is the state and the
  exception that escaped, if any.
\<close>

definition insert_miss_pack ::
  "'f mbox_env \<Rightarrow> string \<Rightarrow> 'f MboxConnectionWorker \<Rightarrow> 'f MboxConnectionWorker \<times> py_exception option" where
  "insert_miss_pack env wall s =
     (if \<not> enabled (config env) then (s, None)
      else case db_writer env of
             None \<Rightarrow> (s, None)
           | Some write \<Rightarrow>
               let miss_variables = miss_vars (mbox_cfg env) s wall in
               (case build_query_opt (lib_isidentifier env) (query_template (config env)) miss_variables of
                  Inl e \<Rightarrow> (s, Some e)
                | Inr (sql_text, params) \<Rightarrow>
                    let s1 = s\<lparr>db_calls := db_calls s @ [(sql_text, params)]\<rparr> in
                    if write sql_text params
                    then (s1\<lparr>db_writes_total := db_writes_total s1 + 1,
                             packs_total := packs_total s1 + 1,
                             packs_miss_total := packs_miss_total s1 + 1\<rparr>, None)
                    else (s1\<lparr>db_write_fail_total := db_write_fail_total s1 + 1\<rparr>, None)))"

text \<open>
  \<open>for _ in range(n): self._insert_miss_pack()\<close>, stopping at an escaping exception;
  \<open>wall i\<close> is the local time text at the \<open>i\<close>-th record.
\<close>

fun insert_miss_packs ::
  "'f mbox_env \<Rightarrow> (nat \<Rightarrow> string) \<Rightarrow> nat \<Rightarrow> nat \<Rightarrow> 'f MboxConnectionWorker
     \<Rightarrow> 'f MboxConnectionWorker \<times> py_exception option" where
  "insert_miss_packs env wall i 0 s = (s, None)"
| "insert_miss_packs env wall i (Suc k) s =
     (case insert_miss_pack env (wall i) s of
        (s', Some e) \<Rightarrow> (s', Some e)
      | (s', None) \<Rightarrow> insert_miss_packs env wall (Suc i) k s')"

definition tick_miss_insert ::
  "'f mbox_env \<Rightarrow> (nat \<Rightarrow> string) \<Rightarrow> 'f \<Rightarrow> 'f MboxConnectionWorker
     \<Rightarrow> 'f MboxConnectionWorker \<times> py_exception option" where
  "tick_miss_insert env wall now s =
     (case miss_deadline_ts s of
        None \<Rightarrow> (s, None)
      | Some deadline \<Rightarrow>
          if fl_lt (lib_floats env) now deadline then (s, None)
          else
            let s1 = s\<lparr>miss_deadline_ts := None\<rparr> in
            if pending_miss s1 \<le> 0 then (s1, None)
            else
              let limit = miss_insert_limit (mbox_cfg env);
                  n = min (pending_miss s1) (max limit 1);
                  s2 = s1\<lparr>pending_miss := pending_miss s1 - n\<rparr>
              in insert_miss_packs env wall 0 (nat n) s2)"

text \<open>
  \<open>_handle_result\<close>: the clean pack's write. Its \<open>build_query\<close> may raise too; the caller's
  handler catches that.
\<close>

definition handle_result ::
  "'f mbox_env \<Rightarrow> 'f MboxTransformResult \<Rightarrow> 'f MboxConnectionWorker
     \<Rightarrow> 'f MboxConnectionWorker \<times> py_exception option" where
  "handle_result env result s =
     (if \<not> enabled (config env) then (s, None)
      else case query_template (config env) of
             None \<Rightarrow> (s, None)
           | Some template \<Rightarrow>
               if template = [] then (s, None)
               else case db_writer env of
                 None \<Rightarrow> (s, None)
               | Some write \<Rightarrow>
                   (case build_query (lib_isidentifier env) template (variables result) of
                      Inl e \<Rightarrow> (s, Some e)
                    | Inr (sql_text, params) \<Rightarrow>
                        let s1 = s\<lparr>db_calls := db_calls s @ [(sql_text, params)]\<rparr> in
                        if write sql_text params
                        then (s1\<lparr>last_good_vars := Some (variables result),
                                 db_writes_total := db_writes_total s1 + 1,
                                 packs_total := packs_total s1 + 1,
                                 packs_clean_total := packs_clean_total s1 + 1\<rparr>, None)
                        else (s1\<lparr>db_write_fail_total := db_write_fail_total s1 + 1\<rparr>, None)))"

text \<open>
  The body of \<open>for payload in frames\<close> in \<open>_run_loop\<close>: parse, transform, open the clean
  window at \<open>time.time() + counter_clean_timeout\<close>, write. Any exception of the three is
  caught here and counted as a parse failure.
\<close>

definition process_payload ::
  "'f mbox_env \<Rightarrow> 'f \<Rightarrow> bytes \<Rightarrow> 'f MboxConnectionWorker \<Rightarrow> 'f MboxConnectionWorker" where
  "process_payload env time_now payload s =
     (let s0 = s\<lparr>frames_total := frames_total s + 1\<rparr> in
      case parse_label_frame (lib_decode env) (lib_strptime env) (lib_float env) payload of
        Inl e \<Rightarrow> s0\<lparr>parse_fail_total := parse_fail_total s0 + 1\<rparr>
      | Inr rec \<Rightarrow>
          let s1 = s0\<lparr>parse_ok_total := parse_ok_total s0 + 1\<rparr>;
              (result, new_last) =
                 transform (lib_floats env) (mbox_cfg env) (last_adj_r_weight s1)
                   (mbox_id (mbox_cfg env)) rec;
              s2 = s1\<lparr>last_adj_r_weight := new_last\<rparr>;
              s3 = s2\<lparr>pending_pack_ts :=
                         Some (fl_add (lib_floats env) time_now
                                 (counter_clean_timeout (mbox_cfg env)))\<rparr>
          in
          (case handle_result env result s3 of
             (s4, None) \<Rightarrow> s4
           | (s4, Some e) \<Rightarrow> s4\<lparr>parse_fail_total := parse_fail_total s4 + 1\<rparr>))"

text \<open>
  The steps of the run loop that touch the reconciliation state, as events: the two ticks,
  each given the loop's \<open>now\<close>, and the processing of one framed payload.
\<close>

datatype 'f mbox_event =
    TickCounter 'f "(int \<Rightarrow> int \<Rightarrow> int option) option"
  | TickMiss 'f "nat \<Rightarrow> string"
  | Payload 'f bytes

fun mbox_step ::
  "'f mbox_env \<Rightarrow> 'f mbox_event \<Rightarrow> 'f MboxConnectionWorker \<Rightarrow> 'f MboxConnectionWorker \<times> py_exception option" where
  "mbox_step env (TickCounter now provider) s = (tick_counter_logic env provider now s, None)"
| "mbox_step env (TickMiss now wall) s = tick_miss_insert env wall now s"
| "mbox_step env (Payload time_now payload) s = (process_payload env time_now payload s, None)"

text \<open>The reconciliation fields that a miss insertion never writes.\<close>

definition same_reconciliation :: "'f MboxConnectionWorker \<Rightarrow> 'f MboxConnectionWorker \<Rightarrow> bool" where
  "same_reconciliation s s' =
     (counter_last_total s' = counter_last_total s \<and> pending_pack_ts s' = pending_pack_ts s
      \<and> miss_deadline_ts s' = miss_deadline_ts s \<and> pending_miss s' = pending_miss s
      \<and> last_good_vars s' = last_good_vars s \<and> last_adj_r_weight s' = last_adj_r_weight s)"

lemma same_reconciliation_refl: "same_reconciliation s s"
  by (simp add: same_reconciliation_def)

lemma same_reconciliation_trans:
  "same_reconciliation s s' \<Longrightarrow> same_reconciliation s' s'' \<Longrightarrow> same_reconciliation s s''"
  by (simp add: same_reconciliation_def)

lemma insert_miss_pack_same: "same_reconciliation s (fst (insert_miss_pack env wall s))"
  by (simp add: insert_miss_pack_def same_reconciliation_def Let_def
           split: option.splits sum.splits prod.splits)

lemma insert_miss_packs_same: "same_reconciliation s (fst (insert_miss_packs env wall i k s))"
proof (induction k arbitrary: i s)
  case 0
  show ?case by (simp add: same_reconciliation_refl)
next
  case (Suc k)
  obtain s' r where step: "insert_miss_pack env (wall i) s = (s', r)"
    by (cases "insert_miss_pack env (wall i) s")
  have a: "same_reconciliation s s'" using insert_miss_pack_same [of s env "wall i"] step by simp
  show ?case
  proof (cases r)
    case None
    then show ?thesis
      using step a Suc.IH [of s' "Suc i"] by (simp add: same_reconciliation_trans)
  next
    case (Some e)
    then show ?thesis using step a by simp
  qed
qed

lemma miss_vars_same:
  "same_reconciliation s s' \<Longrightarrow> miss_vars cfg s' wall = miss_vars cfg s wall"
  by (simp add: miss_vars_def same_reconciliation_def)

lemma miss_vars_overrides:
  "miss_vars cfg s wall ''mbox_id'' = Some (PInt (mbox_id cfg))"
  "miss_vars cfg s wall ''tare'' = Some (PFloat (tare cfg))"
  "miss_vars cfg s wall ''lot'' = Some (PStr (lot cfg))"
  "miss_vars cfg s wall ''on_error'' = Some (PBool True)"
  "miss_vars cfg s wall ''error_info'' = Some (PStr (miss_error_label cfg))"
  "miss_vars cfg s wall ''created_at'' = Some (PStr wall)"
  by (simp_all add: miss_vars_def Let_def)

lemma dom_miss_vars: "dom (miss_vars cfg s wall) = dom (miss_vars cfg s wall')"
  by (simp add: miss_vars_def Let_def)

lemma tick_miss_same_pack: "pending_pack_ts (fst (tick_miss_insert env wall now s)) = pending_pack_ts s"
proof -
  have "pending_pack_ts (fst (insert_miss_packs env wall i k s2)) = pending_pack_ts s2" for i k s2
    using insert_miss_packs_same [of s2 env wall i k] by (simp add: same_reconciliation_def)
  then show ?thesis
    by (simp add: tick_miss_insert_def Let_def split: option.splits)
qed


text \<open>
  Replacing the stored clean-window deadline by another value, keeping whether it is set.
\<close>

definition relabel_pack_deadline ::
  "('f \<Rightarrow> 'f) \<Rightarrow> 'f MboxConnectionWorker \<Rightarrow> 'f MboxConnectionWorker" where
  "relabel_pack_deadline f s = s\<lparr>pending_pack_ts := map_option f (pending_pack_ts s)\<rparr>"

lemma handle_result_same_pack:
  "pending_pack_ts (fst (handle_result env result s)) = pending_pack_ts s"
  by (simp add: handle_result_def Let_def split: option.splits sum.splits prod.splits)

lemma process_payload_pack:
  "pending_pack_ts (process_payload env t payload s) =
     (case parse_label_frame (lib_decode env) (lib_strptime env) (lib_float env) payload of
        Inl e \<Rightarrow> pending_pack_ts s
      | Inr rec \<Rightarrow> Some (fl_add (lib_floats env) t (counter_clean_timeout (mbox_cfg env))))"
  by (auto simp: process_payload_def Let_def split_beta handle_result_same_pack
           split: sum.splits option.splits)

lemma process_payload_set_pack:
  "process_payload env t payload (s\<lparr>pending_pack_ts := x\<rparr>)
     = (process_payload env t payload s)
         \<lparr>pending_pack_ts :=
            (case parse_label_frame (lib_decode env) (lib_strptime env) (lib_float env) payload of
               Inl e \<Rightarrow> x
             | Inr rec \<Rightarrow> Some (fl_add (lib_floats env) t (counter_clean_timeout (mbox_cfg env))))\<rparr>"
proof (cases "parse_label_frame (lib_decode env) (lib_strptime env) (lib_float env) payload")
  case (Inl e)
  then show ?thesis by (simp add: process_payload_def Let_def)
next
  case (Inr rec)
  define d where "d = fl_add (lib_floats env) t (counter_clean_timeout (mbox_cfg env))"
  define tr where "tr = transform (lib_floats env) (mbox_cfg env) (last_adj_r_weight s)
                          (mbox_id (mbox_cfg env)) rec"
  define s3 where "s3 = s\<lparr>frames_total := frames_total s + 1,
      parse_ok_total := parse_ok_total s + 1, last_adj_r_weight := snd tr,
      pending_pack_ts := Some d\<rparr>"
  define finish where "finish = (\<lambda>r :: 'a MboxConnectionWorker \<times> py_exception option.
      case snd r of None \<Rightarrow> fst r
              | Some e \<Rightarrow> (fst r)\<lparr>parse_fail_total := parse_fail_total (fst r) + 1\<rparr>)"
  have plain: "process_payload env t payload s = finish (handle_result env (fst tr) s3)"
    using Inr
    by (simp add: process_payload_def Let_def split_beta s3_def tr_def d_def finish_def
          cong del: option.case_cong_weak)
  have s3': "(s\<lparr>pending_pack_ts := x\<rparr>)\<lparr>frames_total := frames_total s + 1,
      parse_ok_total := parse_ok_total s + 1, last_adj_r_weight := snd tr,
      pending_pack_ts := Some d\<rparr> = s3"
    by (simp add: s3_def)
  have other: "process_payload env t payload (s\<lparr>pending_pack_ts := x\<rparr>)
                 = finish (handle_result env (fst tr) s3)"
    using Inr
    by (simp add: process_payload_def Let_def split_beta tr_def d_def [symmetric]
          finish_def s3' [unfolded tr_def] cong del: option.case_cong_weak)
  have "pending_pack_ts (process_payload env t payload s) = Some d"
    using Inr by (simp add: process_payload_pack d_def)
  then have "(process_payload env t payload s)\<lparr>pending_pack_ts := Some d\<rparr>
               = process_payload env t payload s"
    by (cases "process_payload env t payload s") simp
  then show ?thesis using Inr plain other by (simp add: d_def)
qed

lemma tick_counter_pack:
  "pending_pack_ts (tick_counter_logic env provider now s) =
     (case read_counter_total (mbox_cfg env) provider of
        None \<Rightarrow> pending_pack_ts s
      | Some counter_total \<Rightarrow>
          (case counter_last_total s of
             None \<Rightarrow> pending_pack_ts s
           | Some last_total \<Rightarrow>
               if 0 < counter_total - last_total then None else pending_pack_ts s))"
  by (auto simp: tick_counter_logic_def Let_def split: option.splits)

lemma tick_counter_relabel:
  "tick_counter_logic env provider now (relabel_pack_deadline f s)
     = relabel_pack_deadline f (tick_counter_logic env provider now s)"
  by (auto simp: tick_counter_logic_def relabel_pack_deadline_def Let_def split: option.splits)

lemma insert_miss_pack_relabel:
  "insert_miss_pack env wall (relabel_pack_deadline f s)
     = (relabel_pack_deadline f (fst (insert_miss_pack env wall s)),
        snd (insert_miss_pack env wall s))"
  by (simp add: insert_miss_pack_def relabel_pack_deadline_def miss_vars_def Let_def
           split: option.splits sum.splits prod.splits)

lemma insert_miss_packs_relabel:
  "insert_miss_packs env wall i k (relabel_pack_deadline f s)
     = (relabel_pack_deadline f (fst (insert_miss_packs env wall i k s)),
        snd (insert_miss_packs env wall i k s))"
proof (induction k arbitrary: i s)
  case 0
  show ?case by simp
next
  case (Suc k)
  obtain s' r where step: "insert_miss_pack env (wall i) s = (s', r)"
    by (cases "insert_miss_pack env (wall i) s")
  have rl: "insert_miss_pack env (wall i) (relabel_pack_deadline f s)
              = (relabel_pack_deadline f s', r)"
    using insert_miss_pack_relabel [of env "wall i" f s] step by simp
  show ?case
  proof (cases r)
    case None
    then show ?thesis using step rl Suc.IH [of "Suc i" s'] by simp
  next
    case (Some e)
    then show ?thesis using step rl by simp
  qed
qed

lemma tick_miss_relabel:
  "tick_miss_insert env wall now (relabel_pack_deadline f s)
     = (relabel_pack_deadline f (fst (tick_miss_insert env wall now s)),
        snd (tick_miss_insert env wall now s))"
proof (cases "miss_deadline_ts s")
  case None
  then show ?thesis by (simp add: tick_miss_insert_def relabel_pack_deadline_def)
next
  case (Some deadline)
  show ?thesis
  proof (cases "fl_lt (lib_floats env) now deadline \<or> pending_miss s \<le> 0")
    case True
    then show ?thesis
      using Some by (auto simp: tick_miss_insert_def relabel_pack_deadline_def)
  next
    case False
    define n where "n = min (pending_miss s) (max (miss_insert_limit (mbox_cfg env)) 1)"
    define s2 where "s2 = s\<lparr>miss_deadline_ts := None, pending_miss := pending_miss s - n\<rparr>"
    have a: "tick_miss_insert env wall now s = insert_miss_packs env wall 0 (nat n) s2"
      using Some False by (simp add: tick_miss_insert_def Let_def n_def s2_def)
    have b: "tick_miss_insert env wall now (relabel_pack_deadline f s)
               = insert_miss_packs env wall 0 (nat n) (relabel_pack_deadline f s2)"
      using Some False
      by (cases s)
         (simp add: tick_miss_insert_def Let_def n_def s2_def relabel_pack_deadline_def)
    show ?thesis unfolding a b by (rule insert_miss_packs_relabel)
  qed
qed

text \<open>
  Claim C5. The clean-window deadline \<open>pending_pack_ts\<close> is left alone by \<open>tick_miss\<close> at every
  time; among the steps of the loop only \<open>tick_counter\<close> seeing a positive counter delta
  clears it, and that step always does; only a payload that parses sets it, to the float
  sum of the time of parsing and \<open>counter_clean_timeout\<close>; and no step reads its value:
  with any other deadline stored the two ticks do the same, and the payload step does the
  same and leaves the same deadline, the new one when the payload parses and the stored one
  when it does not.
\<close>

theorem pending_pack_cleared_only_by_counter:
  "pending_pack_ts (fst (tick_miss_insert env wall now s)) = pending_pack_ts s
   \<and> pending_pack_ts (tick_counter_logic env provider now s)
       = pending_pack_ts (tick_counter_logic env provider now' s)
   \<and> (pending_pack_ts s \<noteq> None \<and> pending_pack_ts (fst (mbox_step env e s)) = None \<longrightarrow>
        (case e of
           TickCounter t prov \<Rightarrow>
             (case read_counter_total (mbox_cfg env) prov of
                None \<Rightarrow> False
              | Some counter_total \<Rightarrow>
                  (case counter_last_total s of
                     None \<Rightarrow> False
                   | Some last_total \<Rightarrow> 0 < counter_total - last_total))
         | TickMiss t w \<Rightarrow> False
         | Payload t payload \<Rightarrow> False))
   \<and> (read_counter_total (mbox_cfg env) provider = Some counter_total
        \<and> counter_last_total s = Some last_total \<and> 0 < counter_total - last_total \<longrightarrow>
        pending_pack_ts (tick_counter_logic env provider now s) = None)
   \<and> (pending_pack_ts (fst (mbox_step env e s)) \<noteq> None
        \<and> pending_pack_ts (fst (mbox_step env e s)) \<noteq> pending_pack_ts s \<longrightarrow>
        (case e of
           TickCounter t prov \<Rightarrow> False
         | TickMiss t w \<Rightarrow> False
         | Payload t payload \<Rightarrow>
             (case parse_label_frame (lib_decode env) (lib_strptime env) (lib_float env) payload of
                Inl err \<Rightarrow> False
              | Inr rec \<Rightarrow> pending_pack_ts (fst (mbox_step env e s))
                            = Some (fl_add (lib_floats env) t
                                      (counter_clean_timeout (mbox_cfg env))))))
   \<and> tick_counter_logic env provider now (relabel_pack_deadline f s)
       = relabel_pack_deadline f (tick_counter_logic env provider now s)
   \<and> tick_miss_insert env wall now (relabel_pack_deadline f s)
       = (relabel_pack_deadline f (fst (tick_miss_insert env wall now s)),
          snd (tick_miss_insert env wall now s))
   \<and> pending_pack_ts (process_payload env time_now payload s)
       = (case parse_label_frame (lib_decode env) (lib_strptime env) (lib_float env) payload of
            Inl err \<Rightarrow> pending_pack_ts s
          | Inr rec \<Rightarrow> Some (fl_add (lib_floats env) time_now
                                (counter_clean_timeout (mbox_cfg env))))
   \<and> process_payload env time_now payload (s\<lparr>pending_pack_ts := x\<rparr>)
       = (process_payload env time_now payload s)
           \<lparr>pending_pack_ts :=
              (case parse_label_frame (lib_decode env) (lib_strptime env) (lib_float env)
                      payload of
                 Inl err \<Rightarrow> x
               | Inr rec \<Rightarrow> Some (fl_add (lib_floats env) time_now
                                     (counter_clean_timeout (mbox_cfg env))))\<rparr>"
proof -
  have a: "pending_pack_ts (fst (tick_miss_insert env wall now s)) = pending_pack_ts s"
    by (rule tick_miss_same_pack)
  have b: "pending_pack_ts (tick_counter_logic env provider now s)
       = pending_pack_ts (tick_counter_logic env provider now' s)"
    by (simp add: tick_counter_pack)
  have c: "(case e of
           TickCounter t prov \<Rightarrow>
             (case read_counter_total (mbox_cfg env) prov of
                None \<Rightarrow> False
              | Some counter_total \<Rightarrow>
                  (case counter_last_total s of
                     None \<Rightarrow> False
                   | Some last_total \<Rightarrow> 0 < counter_total - last_total))
         | TickMiss t w \<Rightarrow> False
         | Payload t payload \<Rightarrow> False)"
    if "pending_pack_ts s \<noteq> None" "pending_pack_ts (fst (mbox_step env e s)) = None"
  proof (cases e)
    case (TickCounter t prov)
    then show ?thesis
      using that by (auto simp: tick_counter_pack split: option.splits if_splits)
  next
    case (TickMiss t w)
    then show ?thesis using that by (simp add: tick_miss_same_pack)
  next
    case (Payload t payload)
    then show ?thesis using that by (auto simp: process_payload_pack split: sum.splits)
  qed
  have d: "pending_pack_ts (tick_counter_logic env provider now s) = None"
    if "read_counter_total (mbox_cfg env) provider = Some counter_total"
       "counter_last_total s = Some last_total" "0 < counter_total - last_total"
    using that by (simp add: tick_counter_pack)
  have e: "(case e of
           TickCounter t prov \<Rightarrow> False
         | TickMiss t w \<Rightarrow> False
         | Payload t payload \<Rightarrow>
             (case parse_label_frame (lib_decode env) (lib_strptime env) (lib_float env) payload of
                Inl err \<Rightarrow> False
              | Inr rec \<Rightarrow> pending_pack_ts (fst (mbox_step env e s))
                            = Some (fl_add (lib_floats env) t
                                      (counter_clean_timeout (mbox_cfg env)))))"
    if "pending_pack_ts (fst (mbox_step env e s)) \<noteq> None"
       "pending_pack_ts (fst (mbox_step env e s)) \<noteq> pending_pack_ts s"
  proof (cases e)
    case (TickCounter t prov)
    then show ?thesis
      using that by (auto simp: tick_counter_pack split: option.splits if_splits)
  next
    case (TickMiss t w)
    then show ?thesis using that by (simp add: tick_miss_same_pack)
  next
    case (Payload t payload)
    then show ?thesis using that by (auto simp: process_payload_pack split: sum.splits)
  qed
  note g = tick_counter_relabel
  note h = tick_miss_relabel
  note i = process_payload_pack
  note j = process_payload_set_pack
  have c': "pending_pack_ts s \<noteq> None \<and> pending_pack_ts (fst (mbox_step env e s)) = None \<longrightarrow>
        (case e of
           TickCounter t prov \<Rightarrow>
             (case read_counter_total (mbox_cfg env) prov of
                None \<Rightarrow> False
              | Some counter_total \<Rightarrow>
                  (case counter_last_total s of
                     None \<Rightarrow> False
                   | Some last_total \<Rightarrow> 0 < counter_total - last_total))
         | TickMiss t w \<Rightarrow> False
         | Payload t payload \<Rightarrow> False)"
    by (intro impI, elim conjE, rule c)
  have d': "read_counter_total (mbox_cfg env) provider = Some counter_total
        \<and> counter_last_total s = Some last_total \<and> 0 < counter_total - last_total \<longrightarrow>
        pending_pack_ts (tick_counter_logic env provider now s) = None"
    by (intro impI, elim conjE, rule d)
  have e': "pending_pack_ts (fst (mbox_step env e s)) \<noteq> None
        \<and> pending_pack_ts (fst (mbox_step env e s)) \<noteq> pending_pack_ts s \<longrightarrow>
        (case e of
           TickCounter t prov \<Rightarrow> False
         | TickMiss t w \<Rightarrow> False
         | Payload t payload \<Rightarrow>
             (case parse_label_frame (lib_decode env) (lib_strptime env) (lib_float env) payload of
                Inl err \<Rightarrow> False
              | Inr rec \<Rightarrow> pending_pack_ts (fst (mbox_step env e s))
                            = Some (fl_add (lib_floats env) t
                                      (counter_clean_timeout (mbox_cfg env)))))"
    by (intro impI, elim conjE, rule e)
  show ?thesis
    by (intro conjI) (rule a b c' d' e' g h i j)+
qed


lemma build_query_complete:
  assumes "compile_query_template isid template = Inr c" and "param_names c \<subseteq> dom vs"
  shows "build_query isid template vs = Inr (sql c, vs |` param_names c)"
proof -
  have none: "Set.filter (\<lambda>name. vs name = None) (param_names c) = {}"
    using assms(2) by auto
  have all: "Set.filter (\<lambda>name. vs name \<noteq> None) (param_names c) = param_names c"
    using assms(2) by auto
  show ?thesis
    by (simp only: build_query_def assms(1) sum.case Let_def none all
          sorted_list_of_set_empty simp_thms if_False)
qed

lemma insert_miss_pack_written:
  assumes "enabled (config env)" and "db_writer env = Some write"
    and "query_template (config env) = Some template"
    and "compile_query_template (lib_isidentifier env) template = Inr c"
    and "param_names c \<subseteq> dom (miss_vars (mbox_cfg env) s wall)"
  shows "snd (insert_miss_pack env wall s) = None
         \<and> db_calls (fst (insert_miss_pack env wall s))
             = db_calls s @ [(sql c, miss_vars (mbox_cfg env) s wall |` param_names c)]"
  using assms build_query_complete [OF assms(4) assms(5)]
  by (simp add: insert_miss_pack_def build_query_opt_def Let_def)

lemma insert_miss_packs_written:
  assumes "enabled (config env)" and "db_writer env = Some write"
    and "query_template (config env) = Some template"
    and "compile_query_template (lib_isidentifier env) template = Inr c"
    and "param_names c \<subseteq> dom (miss_vars (mbox_cfg env) s0 w0)"
  shows "same_reconciliation s0 s \<Longrightarrow>
         snd (insert_miss_packs env wall i k s) = None
         \<and> db_calls (fst (insert_miss_packs env wall i k s))
             = db_calls s @ map (\<lambda>j. (sql c, miss_vars (mbox_cfg env) s0 (wall j) |` param_names c))
                                [i..<i + k]"
proof (induction k arbitrary: i s)
  case 0
  show ?case by simp
next
  case (Suc k)
  have mv: "miss_vars (mbox_cfg env) s w = miss_vars (mbox_cfg env) s0 w" for w
    using Suc.prems by (rule miss_vars_same)
  have keys: "param_names c \<subseteq> dom (miss_vars (mbox_cfg env) s (wall i))"
    using assms(5) dom_miss_vars [of "mbox_cfg env" s0 w0 "wall i"] by (simp add: mv)
  note one = insert_miss_pack_written [OF assms(1-4) keys]
  obtain s' where step: "insert_miss_pack env (wall i) s = (s', None)"
    using one by (cases "insert_miss_pack env (wall i) s") auto
  have calls: "db_calls s' = db_calls s @ [(sql c, miss_vars (mbox_cfg env) s0 (wall i) |` param_names c)]"
    using one step by (simp add: mv)
  have "same_reconciliation s s'"
    using insert_miss_pack_same [of s env "wall i"] step by simp
  with Suc.prems have same: "same_reconciliation s0 s'" by (rule same_reconciliation_trans)
  have idx: "[i..<i + Suc k] = i # [Suc i..<Suc i + k]"
    by (simp add: upt_conv_Cons)
  show ?case
    using Suc.IH [OF same, of "Suc i"] step calls unfolding idx by simp
qed

lemma insert_miss_packs_off:
  "\<not> enabled (config env) \<or> db_writer env = None \<Longrightarrow> insert_miss_packs env wall i k s = (s, None)"
  by (induction k arbitrary: i) (auto simp: insert_miss_pack_def)

text \<open>
  Claim C6, as stated: with the connection enabled and a writer present, a due
  \<open>tick_miss\<close> inserts \<open>n\<close> miss records. It fails when the template names a variable the miss
  record does not have (here \<open>fish_name\<close>, with no pack seen yet and an empty
  \<open>miss_default\<close>): \<open>build_query\<close> raises, nothing is written, and the exception leaves the
  tick.
\<close>

definition state_example :: "real option \<Rightarrow> real option \<Rightarrow> int \<Rightarrow> real MboxConnectionWorker" where
  "state_example pack_ts deadline_ts misses =
     \<lparr> counter_last_total = Some 4, pending_pack_ts = pack_ts, miss_deadline_ts = deadline_ts,
       pending_miss = misses, last_good_vars = None, last_adj_r_weight = None, db_calls = [],
       frames_total = 0, parse_ok_total = 0, parse_fail_total = 0, packs_total = 0,
       packs_clean_total = 0, packs_miss_total = 0, counter_increments_total = 0,
       counter_confirm_total = 0, db_writes_total = 0, db_write_fail_total = 0 \<rparr>"

definition env_example :: "string \<Rightarrow> real mbox_env" where
  "env_example template =
     \<lparr> config = \<lparr> enabled = True, query_template = Some template \<rparr>,
       mbox_cfg = cfg_example,
       db_writer = Some (\<lambda>sql_text params. True),
       lib_isidentifier = ascii_isidentifier,
       lib_decode = ascii_decode,
       lib_strptime = strptime_example,
       lib_float = float_example,
       lib_floats = real_floats \<rparr>"

lemma fish_template_compiles:
  "compile_query_template ascii_isidentifier ''INSERT INTO t VALUES ({fish_name}, {on_error})''
     = Inr \<lparr> sql = ''INSERT INTO t VALUES (:fish_name, :on_error)'',
             param_names = {''fish_name'', ''on_error''} \<rparr>"
  by code_simp

theorem tick_miss_inserts_counterexample:
  "miss_deadline_ts (state_example None (Some 4) 1) = Some 4
   \<and> (4 :: real) \<le> 5
   \<and> \<not> fl_lt (lib_floats (env_example ''INSERT INTO t VALUES ({fish_name}, {on_error})'')) 5 4
   \<and> enabled (config (env_example ''INSERT INTO t VALUES ({fish_name}, {on_error})''))
   \<and> db_writer (env_example ''INSERT INTO t VALUES ({fish_name}, {on_error})'') \<noteq> None
   \<and> min (pending_miss (state_example None (Some 4) 1))
          (max (miss_insert_limit
                 (mbox_cfg (env_example ''INSERT INTO t VALUES ({fish_name}, {on_error})''))) 1) = 1
   \<and> db_calls (fst (tick_miss_insert
                      (env_example ''INSERT INTO t VALUES ({fish_name}, {on_error})'')
                      (\<lambda>i. ''2024-01-01 12:00:00'') 5 (state_example None (Some 4) 1))) = []
   \<and> snd (tick_miss_insert
            (env_example ''INSERT INTO t VALUES ({fish_name}, {on_error})'')
            (\<lambda>i. ''2024-01-01 12:00:00'') 5 (state_example None (Some 4) 1))
       = Some (KeyError ''Missing variables for query template: fish_name'')"
proof -
  let ?T = "''INSERT INTO t VALUES ({fish_name}, {on_error})''"
  let ?s = "state_example None (Some 4) 1"
  have missing: "Set.filter (\<lambda>name. miss_vars cfg_example s w name = None)
                   {''fish_name'', ''on_error''} = {''fish_name''}"
    if "last_good_vars s = None" for s w
    using that by (auto simp: miss_vars_def cfg_example_def)
  have one: "sorted_list_of_set {''fish_name''} = [''fish_name'']" by simp
  have bq: "build_query ascii_isidentifier ?T (miss_vars cfg_example s w)
              = Inl (KeyError ''Missing variables for query template: fish_name'')"
    if "last_good_vars s = None" for s w
    by (simp only: build_query_def fish_template_compiles sum.case Let_def
          CompiledQueryTemplate.simps missing [OF that] one)
       simp
  have step: "insert_miss_pack (env_example ?T) w s
                = (s, Some (KeyError ''Missing variables for query template: fish_name''))"
    if "last_good_vars s = None" for s w
    using bq [OF that] by (simp add: insert_miss_pack_def env_example_def build_query_opt_def)
  have r: "tick_miss_insert (env_example ?T) (\<lambda>i. ''2024-01-01 12:00:00'') 5 ?s
             = (?s\<lparr>miss_deadline_ts := None, pending_miss := 0\<rparr>,
                Some (KeyError ''Missing variables for query template: fish_name''))"
    by (simp add: tick_miss_insert_def Let_def state_example_def step)
       (simp add: env_example_def real_floats_def)
  show ?thesis
    unfolding r by (simp add: state_example_def env_example_def cfg_example_def real_floats_def)
qed


lemma tick_miss_fields:
  "counter_last_total (fst (tick_miss_insert env wall now s)) = counter_last_total s
   \<and> last_good_vars (fst (tick_miss_insert env wall now s)) = last_good_vars s
   \<and> last_adj_r_weight (fst (tick_miss_insert env wall now s)) = last_adj_r_weight s"
proof -
  have "same_reconciliation s2 (fst (insert_miss_packs env wall i k s2))" for i k s2
    by (rule insert_miss_packs_same)
  then have *: "counter_last_total (fst (insert_miss_packs env wall i k s2)) = counter_last_total s2
      \<and> last_good_vars (fst (insert_miss_packs env wall i k s2)) = last_good_vars s2
      \<and> last_adj_r_weight (fst (insert_miss_packs env wall i k s2)) = last_adj_r_weight s2"
    for i k s2
    by (simp add: same_reconciliation_def)
  show ?thesis
    by (simp add: tick_miss_insert_def Let_def * split: option.splits)
qed

text \<open>
  Claim C6, amended. When \<open>tick_miss\<close> runs with \<open>miss_deadline\<close> set and \<open>now < miss_deadline\<close>
  false (and \<open>pending_miss\<close> not negative, as it never is), it clears \<open>miss_deadline\<close>, takes
  \<open>n = min(pending_miss, max(miss_insert_limit, 1))\<close> and lowers \<open>pending_miss\<close> by exactly
  \<open>n\<close>; when moreover the connection is enabled, a DB writer is present and every placeholder
  of the query template is a key of the miss variables, it hands exactly \<open>n\<close> records to the
  writer, each the miss variables restricted to the placeholders of the template. The miss
  variables have \<open>on_error = true\<close>, \<open>error_info\<close> the configured \<open>miss_error_label\<close>, and
  \<open>mbox_id\<close>, \<open>tare\<close>, \<open>lot\<close> from the configuration, and a handed record carries each of
  these five, with that value, exactly when the template names it. With the connection
  disabled or no writer nothing is written. When \<open>miss_deadline\<close> is unset or
  \<open>now < miss_deadline\<close>, the state is unchanged.
\<close>

theorem tick_miss_inserts:
  assumes "0 \<le> pending_miss s"
  shows "(case miss_deadline_ts s of
            None \<Rightarrow> tick_miss_insert env wall now s = (s, None)
          | Some deadline \<Rightarrow>
              if fl_lt (lib_floats env) now deadline
              then tick_miss_insert env wall now s = (s, None)
              else
                (let n = min (pending_miss s) (max (miss_insert_limit (mbox_cfg env)) 1);
                     r = tick_miss_insert env wall now s
                 in miss_deadline_ts (fst r) = None
                    \<and> pending_miss (fst r) = pending_miss s - n
                    \<and> counter_last_total (fst r) = counter_last_total s
                    \<and> pending_pack_ts (fst r) = pending_pack_ts s
                    \<and> last_good_vars (fst r) = last_good_vars s
                    \<and> (enabled (config env) \<and> db_writer env \<noteq> None
                        \<and> query_template (config env) = Some template
                        \<and> compile_query_template (lib_isidentifier env) template = Inr c
                        \<and> param_names c \<subseteq> dom (miss_vars (mbox_cfg env) s w0)
                        \<longrightarrow> snd r = None
                            \<and> db_calls (fst r)
                                = db_calls s
                                  @ map (\<lambda>i. (sql c, miss_vars (mbox_cfg env) s (wall i)
                                                        |` param_names c))
                                        [0..<nat n])
                    \<and> (\<not> enabled (config env) \<or> db_writer env = None
                        \<longrightarrow> snd r = None \<and> db_calls (fst r) = db_calls s)))
         \<and> miss_vars (mbox_cfg env) s w ''on_error'' = Some (PBool True)
         \<and> miss_vars (mbox_cfg env) s w ''error_info'' = Some (PStr (miss_error_label (mbox_cfg env)))
         \<and> miss_vars (mbox_cfg env) s w ''mbox_id'' = Some (PInt (mbox_id (mbox_cfg env)))
         \<and> miss_vars (mbox_cfg env) s w ''tare'' = Some (PFloat (tare (mbox_cfg env)))
         \<and> miss_vars (mbox_cfg env) s w ''lot'' = Some (PStr (lot (mbox_cfg env)))
         \<and> (miss_vars (mbox_cfg env) s w |` param_names c) ''on_error''
             = (if ''on_error'' \<in> param_names c then Some (PBool True) else None)
         \<and> (miss_vars (mbox_cfg env) s w |` param_names c) ''error_info''
             = (if ''error_info'' \<in> param_names c
                then Some (PStr (miss_error_label (mbox_cfg env))) else None)
         \<and> (miss_vars (mbox_cfg env) s w |` param_names c) ''mbox_id''
             = (if ''mbox_id'' \<in> param_names c
                then Some (PInt (mbox_id (mbox_cfg env))) else None)
         \<and> (miss_vars (mbox_cfg env) s w |` param_names c) ''tare''
             = (if ''tare'' \<in> param_names c
                then Some (PFloat (tare (mbox_cfg env))) else None)
         \<and> (miss_vars (mbox_cfg env) s w |` param_names c) ''lot''
             = (if ''lot'' \<in> param_names c then Some (PStr (lot (mbox_cfg env))) else None)"
proof -
  have tick: "(case miss_deadline_ts s of
            None \<Rightarrow> tick_miss_insert env wall now s = (s, None)
          | Some deadline \<Rightarrow>
              if fl_lt (lib_floats env) now deadline
              then tick_miss_insert env wall now s = (s, None)
              else
                (let n = min (pending_miss s) (max (miss_insert_limit (mbox_cfg env)) 1);
                     r = tick_miss_insert env wall now s
                 in miss_deadline_ts (fst r) = None
                    \<and> pending_miss (fst r) = pending_miss s - n
                    \<and> counter_last_total (fst r) = counter_last_total s
                    \<and> pending_pack_ts (fst r) = pending_pack_ts s
                    \<and> last_good_vars (fst r) = last_good_vars s
                    \<and> (enabled (config env) \<and> db_writer env \<noteq> None
                        \<and> query_template (config env) = Some template
                        \<and> compile_query_template (lib_isidentifier env) template = Inr c
                        \<and> param_names c \<subseteq> dom (miss_vars (mbox_cfg env) s w0)
                        \<longrightarrow> snd r = None
                            \<and> db_calls (fst r)
                                = db_calls s
                                  @ map (\<lambda>i. (sql c, miss_vars (mbox_cfg env) s (wall i)
                                                        |` param_names c))
                                        [0..<nat n])
                    \<and> (\<not> enabled (config env) \<or> db_writer env = None
                        \<longrightarrow> snd r = None \<and> db_calls (fst r) = db_calls s)))"
  proof (cases "miss_deadline_ts s")
    case None
    then show ?thesis by (simp add: tick_miss_insert_def)
  next
    case (Some deadline)
    show ?thesis
    proof (cases "fl_lt (lib_floats env) now deadline")
      case True
      with Some show ?thesis by (simp add: tick_miss_insert_def)
    next
      case False
      define n where "n = min (pending_miss s) (max (miss_insert_limit (mbox_cfg env)) 1)"
      define r where "r = tick_miss_insert env wall now s"
      have kept: "counter_last_total (fst r) = counter_last_total s"
                 "pending_pack_ts (fst r) = pending_pack_ts s"
                 "last_good_vars (fst r) = last_good_vars s"
        unfolding r_def using tick_miss_fields [of env wall now s] tick_miss_same_pack [of env wall now s]
        by simp_all
      have body: "miss_deadline_ts (fst r) = None
                    \<and> pending_miss (fst r) = pending_miss s - n
                    \<and> (enabled (config env) \<and> db_writer env \<noteq> None
                        \<and> query_template (config env) = Some template
                        \<and> compile_query_template (lib_isidentifier env) template = Inr c
                        \<and> param_names c \<subseteq> dom (miss_vars (mbox_cfg env) s w0)
                        \<longrightarrow> snd r = None
                            \<and> db_calls (fst r)
                                = db_calls s
                                  @ map (\<lambda>i. (sql c, miss_vars (mbox_cfg env) s (wall i)
                                                        |` param_names c))
                                        [0..<nat n])
                    \<and> (\<not> enabled (config env) \<or> db_writer env = None
                        \<longrightarrow> snd r = None \<and> db_calls (fst r) = db_calls s)"
      proof (cases "pending_miss s \<le> 0")
        case True
        with assms have z: "pending_miss s = 0" by simp
        then have n0: "n = 0" by (simp add: n_def)
        have "r = (s\<lparr>miss_deadline_ts := None\<rparr>, None)"
          using Some False z by (simp add: r_def tick_miss_insert_def)
        then show ?thesis using z n0 by simp
      next
        case pos: False
        define s2 where "s2 = s\<lparr>miss_deadline_ts := None, pending_miss := pending_miss s - n\<rparr>"
        have r2: "r = insert_miss_packs env wall 0 (nat n) s2"
          using Some False pos by (simp add: r_def tick_miss_insert_def Let_def n_def s2_def)
        have same: "same_reconciliation s2 (fst r)"
          unfolding r2 by (rule insert_miss_packs_same)
        then have f1: "miss_deadline_ts (fst r) = None" "pending_miss (fst r) = pending_miss s - n"
          by (simp_all add: same_reconciliation_def s2_def)
        have mv: "miss_vars (mbox_cfg env) s2 w' = miss_vars (mbox_cfg env) s w'" for w'
          by (simp add: miss_vars_def s2_def)
        have written: "snd r = None
              \<and> db_calls (fst r)
                  = db_calls s @ map (\<lambda>i. (sql c, miss_vars (mbox_cfg env) s (wall i) |` param_names c))
                                     [0..<nat n]"
          if h: "enabled (config env)" "db_writer env \<noteq> None"
                "query_template (config env) = Some template"
                "compile_query_template (lib_isidentifier env) template = Inr c"
                "param_names c \<subseteq> dom (miss_vars (mbox_cfg env) s w0)"
        proof -
          from h(2) obtain wr where w: "db_writer env = Some wr" by auto
          have keys: "param_names c \<subseteq> dom (miss_vars (mbox_cfg env) s2 w0)"
            using h(5) by (simp add: mv)
          have calls2: "db_calls s2 = db_calls s" by (simp add: s2_def)
          note packs = insert_miss_packs_written
                 [OF h(1) w h(3) h(4) keys same_reconciliation_refl, of wall 0 "nat n"]
          show ?thesis
            unfolding r2 using packs unfolding mv calls2 by simp
        qed
        have off: "snd r = None \<and> db_calls (fst r) = db_calls s"
          if "\<not> enabled (config env) \<or> db_writer env = None"
          unfolding r2 using insert_miss_packs_off [OF that, of wall 0 "nat n" s2]
          by (simp add: s2_def)
        show ?thesis using f1 written off by blast
      qed
      show ?thesis
        using Some False body kept
        by (simp only: option.case if_False Let_def n_def [symmetric] r_def [symmetric]) blast
    qed
  qed
  note mv = miss_vars_overrides [of "mbox_cfg env" s w]
  have handed: "(miss_vars (mbox_cfg env) s w |` param_names c) name
                  = (if name \<in> param_names c then miss_vars (mbox_cfg env) s w name else None)"
    for name
    by (simp add: restrict_map_def)
  show ?thesis
    by (intro conjI) (rule tick mv(1-5) | simp only: handed mv(1-5))+
qed


lemma five_names_compile:
  "compile_query_template ascii_isidentifier
       ''INSERT INTO t VALUES ({mbox_id}, {on_error}, {error_info}, {tare}, {lot})''
     = Inr \<lparr> sql = ''INSERT INTO t VALUES (:mbox_id, :on_error, :error_info, :tare, :lot)'',
             param_names = {''mbox_id'', ''on_error'', ''error_info'', ''tare'', ''lot''} \<rparr>"
  by code_simp

theorem tick_miss_inserts_witness:
  "0 \<le> pending_miss (state_example None (Some 4) 2)
   \<and> miss_deadline_ts (state_example None (Some 4) 2) = Some 4
   \<and> fl_lt (lib_floats (env_example ''INSERT INTO t VALUES ({mbox_id}, {on_error}, {error_info}, {tare}, {lot})'')) 3 4
   \<and> \<not> fl_lt (lib_floats (env_example ''INSERT INTO t VALUES ({mbox_id}, {on_error}, {error_info}, {tare}, {lot})'')) 5 4
   \<and> enabled (config (env_example ''INSERT INTO t VALUES ({mbox_id}, {on_error}, {error_info}, {tare}, {lot})''))
   \<and> db_writer (env_example ''INSERT INTO t VALUES ({mbox_id}, {on_error}, {error_info}, {tare}, {lot})'') \<noteq> None
   \<and> tick_miss_insert (env_example ''INSERT INTO t VALUES ({mbox_id}, {on_error}, {error_info}, {tare}, {lot})'')
         (\<lambda>i. ''2024-01-01 12:00:00'') 3 (state_example None (Some 4) 2)
       = (state_example None (Some 4) 2, None)
   \<and> miss_deadline_ts (fst (tick_miss_insert
         (env_example ''INSERT INTO t VALUES ({mbox_id}, {on_error}, {error_info}, {tare}, {lot})'')
         (\<lambda>i. ''2024-01-01 12:00:00'') 5 (state_example None (Some 4) 2))) = None
   \<and> pending_miss (fst (tick_miss_insert
         (env_example ''INSERT INTO t VALUES ({mbox_id}, {on_error}, {error_info}, {tare}, {lot})'')
         (\<lambda>i. ''2024-01-01 12:00:00'') 5 (state_example None (Some 4) 2))) = 0
   \<and> map (\<lambda>(q, p). (q, p ''mbox_id'', p ''on_error'', p ''error_info'', p ''tare'', p ''lot'',
                       p ''created_at''))
         (db_calls (fst (tick_miss_insert
            (env_example ''INSERT INTO t VALUES ({mbox_id}, {on_error}, {error_info}, {tare}, {lot})'')
            (\<lambda>i. ''2024-01-01 12:00:00'') 5 (state_example None (Some 4) 2))))
       = [(''INSERT INTO t VALUES (:mbox_id, :on_error, :error_info, :tare, :lot)'',
           Some (PInt 7), Some (PBool True), Some (PStr ''scales error''),
           Some (PFloat (1/2)), Some (PStr ''L1''), None),
          (''INSERT INTO t VALUES (:mbox_id, :on_error, :error_info, :tare, :lot)'',
           Some (PInt 7), Some (PBool True), Some (PStr ''scales error''),
           Some (PFloat (1/2)), Some (PStr ''L1''), None)]"
proof -
  let ?T = "''INSERT INTO t VALUES ({mbox_id}, {on_error}, {error_info}, {tare}, {lot})''"
  let ?Q = "''INSERT INTO t VALUES (:mbox_id, :on_error, :error_info, :tare, :lot)''"
  let ?s = "state_example None (Some 4) 2"
  let ?wall = "\<lambda>i :: nat. ''2024-01-01 12:00:00''"
  let ?c = "\<lparr> sql = ?Q,
             param_names = {''mbox_id'', ''on_error'', ''error_info'', ''tare'', ''lot''} \<rparr>"
  have h0: "0 \<le> pending_miss ?s" by (simp add: state_example_def)
  have dl: "miss_deadline_ts ?s = Some 4" by (simp add: state_example_def)
  have lt: "fl_lt (lib_floats (env_example ?T)) 3 4 = True"
    by (simp add: env_example_def real_floats_def)
  have ge: "fl_lt (lib_floats (env_example ?T)) 5 4 = False"
    by (simp add: env_example_def real_floats_def)
  have en: "enabled (config (env_example ?T))" by (simp add: env_example_def)
  have wr: "db_writer (env_example ?T) \<noteq> None" by (simp add: env_example_def)
  have qt: "query_template (config (env_example ?T)) = Some ?T" by (simp add: env_example_def)
  have cp: "compile_query_template (lib_isidentifier (env_example ?T)) ?T = Inr ?c"
    using five_names_compile by (simp add: env_example_def)
  have keys: "param_names ?c \<subseteq> dom (miss_vars (mbox_cfg (env_example ?T)) ?s [])"
    by (simp add: domIff miss_vars_overrides)
  have n: "min (pending_miss ?s) (max (miss_insert_limit (mbox_cfg (env_example ?T))) 1) = 2"
    by (simp add: state_example_def env_example_def cfg_example_def)
  have two: "[0..<nat 2] = [0, 1]" by (simp add: upt_conv_Cons)
  note early = tick_miss_inserts [OF h0, of "env_example ?T" ?wall 3 ?T ?c "[]" "[]"]
  note due = tick_miss_inserts [OF h0, of "env_example ?T" ?wall 5 ?T ?c "[]" "''2024-01-01 12:00:00''"]
  have r1: "tick_miss_insert (env_example ?T) ?wall 3 ?s = (?s, None)"
    using early by (simp only: dl option.case lt if_True)
  have r2: "miss_deadline_ts (fst (tick_miss_insert (env_example ?T) ?wall 5 ?s)) = None
            \<and> pending_miss (fst (tick_miss_insert (env_example ?T) ?wall 5 ?s)) = 0
            \<and> db_calls (fst (tick_miss_insert (env_example ?T) ?wall 5 ?s))
                = db_calls ?s @ map (\<lambda>i. (sql ?c, miss_vars (mbox_cfg (env_example ?T)) ?s (?wall i)
                                                      |` param_names ?c)) [0, 1]"
    using due en wr qt cp keys
    by (simp only: dl option.case ge if_False Let_def n two) (simp add: state_example_def)
  have handed: "(miss_vars (mbox_cfg (env_example ?T)) ?s ''2024-01-01 12:00:00'' |` param_names ?c)
                  ''mbox_id'' = Some (PInt 7)
     \<and> (miss_vars (mbox_cfg (env_example ?T)) ?s ''2024-01-01 12:00:00'' |` param_names ?c)
                  ''on_error'' = Some (PBool True)
     \<and> (miss_vars (mbox_cfg (env_example ?T)) ?s ''2024-01-01 12:00:00'' |` param_names ?c)
                  ''error_info'' = Some (PStr ''scales error'')
     \<and> (miss_vars (mbox_cfg (env_example ?T)) ?s ''2024-01-01 12:00:00'' |` param_names ?c)
                  ''tare'' = Some (PFloat (1/2))
     \<and> (miss_vars (mbox_cfg (env_example ?T)) ?s ''2024-01-01 12:00:00'' |` param_names ?c)
                  ''lot'' = Some (PStr ''L1'')"
    using due by (simp add: env_example_def cfg_example_def)
  have created: "(miss_vars (mbox_cfg (env_example ?T)) ?s ''2024-01-01 12:00:00'' |` param_names ?c)
                  ''created_at'' = None"
    by (simp add: restrict_map_def)
  have r3: "map (\<lambda>(q, p). (q, p ''mbox_id'', p ''on_error'', p ''error_info'', p ''tare'', p ''lot'',
                       p ''created_at''))
         (db_calls (fst (tick_miss_insert (env_example ?T) ?wall 5 ?s)))
       = [(?Q,
           Some (PInt 7), Some (PBool True), Some (PStr ''scales error''),
           Some (PFloat (1/2)), Some (PStr ''L1''), None),
          (?Q,
           Some (PInt 7), Some (PBool True), Some (PStr ''scales error''),
           Some (PFloat (1/2)), Some (PStr ''L1''), None)]"
    using r2 handed created by (simp add: state_example_def)
  show ?thesis using h0 dl lt ge en wr r1 r2 r3 by blast
qed

theorem pending_pack_cleared_only_by_counter_witness:
  "pending_pack_ts (state_example (Some 16) (Some 4) 1) = Some 16
   \<and> pending_pack_ts (fst (mbox_step (env_example ''INSERT INTO t VALUES ({mbox_id})'')
         (TickMiss 1000 (\<lambda>i. ''2024-01-01 12:00:00''))
         (state_example (Some 16) (Some 4) 1))) = Some 16
   \<and> read_counter_total (mbox_cfg (env_example ''INSERT INTO t VALUES ({mbox_id})''))
         (Some (\<lambda>conn dev. if conn = 2 \<and> dev = 1 then Some 5 else None)) = Some 5
   \<and> counter_last_total (state_example (Some 16) (Some 4) 1) = Some 4
   \<and> pending_pack_ts (fst (mbox_step (env_example ''INSERT INTO t VALUES ({mbox_id})'')
         (TickCounter 1000 (Some (\<lambda>conn dev. if conn = 2 \<and> dev = 1 then Some 5 else None)))
         (state_example (Some 16) (Some 4) 1))) = None
   \<and> pending_pack_ts (tick_counter_logic (env_example ''INSERT INTO t VALUES ({mbox_id})'')
         (Some (\<lambda>conn dev. if conn = 2 \<and> dev = 1 then Some 4 else None)) 1000
         (state_example (Some 16) (Some 4) 1)) = Some 16
   \<and> pending_pack_ts (fst (mbox_step (env_example ''INSERT INTO t VALUES ({mbox_id})'')
         (Payload 1000 (ascii_encode ''20240101123015999,H,F,,0,0,MACKEREL,SN123,M,12.5,13.1,,AA''))
         (state_example (Some 16) (Some 4) 1))) = Some 1006
   \<and> pending_pack_ts (process_payload (env_example ''INSERT INTO t VALUES ({mbox_id})'') 1000
         (ascii_encode ''20240101123015999,H,F,,0,0,MACKEREL,SN123,M,12.5,13.1,,AA'')
         ((state_example (Some 16) (Some 4) 1)\<lparr>pending_pack_ts := Some 2000\<rparr>)) = Some 1006
   \<and> pending_pack_ts (process_payload (env_example ''INSERT INTO t VALUES ({mbox_id})'') 2000
         (ascii_encode ''20240101123015999,H,F,,0,0,MACKEREL,SN123,M,12.5,13.1,,AA'')
         ((state_example (Some 16) (Some 4) 1)\<lparr>pending_pack_ts := None\<rparr>)) = Some 2006"
proof -
  let ?env = "env_example ''INSERT INTO t VALUES ({mbox_id})''"
  let ?s = "state_example (Some 16) (Some 4) 1"
  let ?wall = "\<lambda>i :: nat. ''2024-01-01 12:00:00''"
  let ?p5 = "Some (\<lambda>conn dev :: int. if conn = 2 \<and> dev = 1 then Some (5 :: int) else None)"
  let ?p4 = "Some (\<lambda>conn dev :: int. if conn = 2 \<and> dev = 1 then Some (4 :: int) else None)"
  let ?pl = "ascii_encode ''20240101123015999,H,F,,0,0,MACKEREL,SN123,M,12.5,13.1,,AA''"
  have s16: "pending_pack_ts ?s = Some 16" by (simp add: state_example_def)
  have rd: "read_counter_total (mbox_cfg ?env) ?p5 = Some 5"
    by (simp add: read_counter_total_def env_example_def cfg_example_def)
  have lt: "counter_last_total ?s = Some 4" by (simp add: state_example_def)
  have pos: "(0 :: int) < 5 - 4" by simp
  have parsed: "parse_label_frame (lib_decode ?env) (lib_strptime ?env) (lib_float ?env) ?pl
      = Inr \<lparr> dt = \<lparr> year = 2024, month = 1, day = 1, hour = 12, minute = 30, second = 15,
                    microsecond = 999000 \<rparr>,
           sFishType = ''MACKEREL'', sSize = ''M'', nWeight = 25/2, rWeight = 131/10,
           sSNumber = ''SN123'' \<rparr>"
    using parse_example_record by (simp add: env_example_def)
  have sum1: "fl_add (lib_floats ?env) 1000 (counter_clean_timeout (mbox_cfg ?env)) = 1006"
    by (simp add: env_example_def cfg_example_def real_floats_def)
  have sum2: "fl_add (lib_floats ?env) 2000 (counter_clean_timeout (mbox_cfg ?env)) = 2006"
    by (simp add: env_example_def cfg_example_def real_floats_def)
  note t = pending_pack_cleared_only_by_counter
             [of ?env ?wall 1000 ?s ?p5 1000 "TickMiss 1000 ?wall" 5 4 id 1000 ?pl "Some 2000"]
  note u = pending_pack_cleared_only_by_counter
             [of ?env ?wall 1000 ?s ?p5 1000 "Payload 1000 ?pl" 5 4 id 2000 ?pl None]
  have a: "pending_pack_ts (fst (mbox_step ?env (TickMiss 1000 ?wall) ?s)) = Some 16"
    using t [THEN conjunct1] s16 by simp
  have b: "pending_pack_ts (fst (mbox_step ?env (TickCounter 1000 ?p5) ?s)) = None"
    using t [THEN conjunct2, THEN conjunct2, THEN conjunct2, THEN conjunct1] rd lt pos
    by simp
  have c: "pending_pack_ts (tick_counter_logic ?env ?p4 1000 ?s) = Some 16"
    by (simp add: tick_counter_pack read_counter_total_def env_example_def cfg_example_def
          state_example_def)
  have d: "pending_pack_ts (process_payload ?env 1000 ?pl ?s) = Some 1006"
    using t [THEN conjunct2, THEN conjunct2, THEN conjunct2, THEN conjunct2, THEN conjunct2,
             THEN conjunct2, THEN conjunct2, THEN conjunct1]
    by (simp only: parsed sum.case sum1)
  have d': "pending_pack_ts (fst (mbox_step ?env (Payload 1000 ?pl) ?s)) = Some 1006"
    using d by simp
  have "pending_pack_ts (fst (mbox_step ?env (Payload 1000 ?pl) ?s)) \<noteq> None
        \<and> pending_pack_ts (fst (mbox_step ?env (Payload 1000 ?pl) ?s)) \<noteq> pending_pack_ts ?s"
    using d' s16 by simp
  with u [THEN conjunct2, THEN conjunct2, THEN conjunct2, THEN conjunct2, THEN conjunct1]
  have d'': "pending_pack_ts (fst (mbox_step ?env (Payload 1000 ?pl) ?s)) = Some 1006"
    by (simp only: mbox_event.case parsed sum.case sum1 simp_thms)
  have e: "pending_pack_ts (process_payload ?env 1000 ?pl (?s\<lparr>pending_pack_ts := Some 2000\<rparr>))
             = Some 1006"
    using t [THEN conjunct2, THEN conjunct2, THEN conjunct2, THEN conjunct2, THEN conjunct2,
             THEN conjunct2, THEN conjunct2, THEN conjunct2]
    by (simp only: parsed sum.case sum1) simp
  have f: "pending_pack_ts (process_payload ?env 2000 ?pl (?s\<lparr>pending_pack_ts := None\<rparr>))
             = Some 2006"
    using u [THEN conjunct2, THEN conjunct2, THEN conjunct2, THEN conjunct2, THEN conjunct2,
             THEN conjunct2, THEN conjunct2, THEN conjunct2]
    by (simp only: parsed sum.case sum2) simp
  show ?thesis using s16 a rd lt b c d'' e f by blast
qed

text \<open>
  \<open>pending_miss\<close> is never negative: it starts at 0, \<open>tick_counter\<close> adds a positive delta and
  \<open>tick_miss\<close> subtracts at most what is pending.
\<close>

definition mbox_init :: "'f MboxConnectionWorker" where
  "mbox_init =
     \<lparr> counter_last_total = None, pending_pack_ts = None, miss_deadline_ts = None,
       pending_miss = 0, last_good_vars = None, last_adj_r_weight = None, db_calls = [],
       frames_total = 0, parse_ok_total = 0, parse_fail_total = 0, packs_total = 0,
       packs_clean_total = 0, packs_miss_total = 0, counter_increments_total = 0,
       counter_confirm_total = 0, db_writes_total = 0, db_write_fail_total = 0 \<rparr>"

fun mbox_run ::
  "'f mbox_env \<Rightarrow> 'f MboxConnectionWorker \<Rightarrow> 'f mbox_event list
     \<Rightarrow> 'f MboxConnectionWorker \<times> py_exception option" where
  "mbox_run env s [] = (s, None)"
| "mbox_run env s (e # es) =
     (case mbox_step env e s of
        (s', Some x) \<Rightarrow> (s', Some x)
      | (s', None) \<Rightarrow> mbox_run env s' es)"

lemma handle_result_pending_miss:
  "pending_miss (fst (handle_result env result s)) = pending_miss s"
  by (simp add: handle_result_def Let_def split: option.splits sum.splits prod.splits)

lemma mbox_step_pending_miss:
  assumes "0 \<le> pending_miss s"
  shows "0 \<le> pending_miss (fst (mbox_step env e s))"
proof (cases e)
  case (TickCounter now provider)
  then show ?thesis
    using assms by (auto simp: tick_counter_logic_def Let_def split: option.splits)
next
  case (TickMiss now wall)
  have "pending_miss (fst (insert_miss_packs env wall i k s2)) = pending_miss s2" for i k s2
    using insert_miss_packs_same [of s2 env wall i k] by (simp add: same_reconciliation_def)
  then show ?thesis
    using assms TickMiss by (auto simp: tick_miss_insert_def Let_def split: option.splits)
next
  case (Payload t payload)
  then show ?thesis
    using assms
    by (auto simp: process_payload_def Let_def split_beta handle_result_pending_miss
             split: sum.splits option.splits)
qed

lemma mbox_run_pending_miss:
  "0 \<le> pending_miss s \<Longrightarrow> 0 \<le> pending_miss (fst (mbox_run env s es))"
proof (induction es arbitrary: s)
  case Nil
  then show ?case by simp
next
  case (Cons e es)
  obtain s' r where st: "mbox_step env e s = (s', r)" by (cases "mbox_step env e s")
  have "0 \<le> pending_miss s'" using mbox_step_pending_miss [OF Cons.prems, of env e] st by simp
  then show ?case using st Cons.IH [of s'] by (cases r) auto
qed

lemma pending_miss_never_negative: "0 \<le> pending_miss (fst (mbox_run env mbox_init es))"
  by (rule mbox_run_pending_miss) (simp add: mbox_init_def)

end
